theory Spec2Isabelle
  imports Main "HOL-Library.Sublist" "HOL-Library.AList"
begin

section \<open>Python values, exceptions and strings\<close>

text \<open>
  The pipeline of \<^verbatim>\<open>orchestrator.py\<close> is dynamically typed: the fields of its
  dataclasses are filled with whatever \<^verbatim>\<open>json.loads\<close> returned. The model keeps
  that: a field holds a \<open>json\<close> value, and an operation that Python rejects on a value of
  the wrong type is a branch that raises. A float is kept as mantissa and decimal
  exponent; only whether it is zero is ever observed.
\<close>

datatype exc_class =
    OSError | TypeError | AttributeError | ValueError | UnboundLocalError
  | JSONDecodeError | APIException | CalledProcessError | UnicodeEncodeError
  | OtherException

text \<open>An exception: its class and \<^verbatim>\<open>str(e)\<close>.\<close>

datatype exc = Exc exc_class string

fun exc_class_of :: "exc \<Rightarrow> exc_class" where
  "exc_class_of (Exc c m) = c"

fun exc_str :: "exc \<Rightarrow> string" where
  "exc_str (Exc c m) = m"

datatype json =
    JNull | JBool bool | JInt int | JFloat int int | JStr string
  | JArr "json list" | JObj "(string \<times> json) list"

text \<open>Truth value of a Python object, as \<^verbatim>\<open>if x\<close> and \<^verbatim>\<open>not x\<close> test it.\<close>

fun truthy :: "json \<Rightarrow> bool" where
  "truthy JNull = False"
| "truthy (JBool b) = b"
| "truthy (JInt i) = (i \<noteq> 0)"
| "truthy (JFloat m e) = (m \<noteq> 0)"
| "truthy (JStr s) = (s \<noteq> [])"
| "truthy (JArr xs) = (xs \<noteq> [])"
| "truthy (JObj kvs) = (kvs \<noteq> [])"

text \<open>A Python \<^verbatim>\<open>for\<close> loop whose body may raise: the first exception ends the loop.\<close>

fun for_each :: "('a \<Rightarrow> 's \<Rightarrow> exc + 's) \<Rightarrow> 'a list \<Rightarrow> 's \<Rightarrow> exc + 's" where
  "for_each f [] s = Inr s"
| "for_each f (x # xs) s = (case f x s of Inl e \<Rightarrow> Inl e | Inr s' \<Rightarrow> for_each f xs s')"

text \<open>\<^verbatim>\<open>xs[:n]\<close> for any integer \<open>n\<close>: a negative \<open>n\<close> counts from the end.\<close>

definition py_take :: "int \<Rightarrow> 'a list \<Rightarrow> 'a list" where
  "py_take n xs = (if 0 \<le> n then take (nat n) xs else take (length xs - nat (- n)) xs)"

text \<open>\<^verbatim>\<open>xs[i:j]\<close> for non-negative \<open>i\<close>, \<open>j\<close>.\<close>

definition py_slice :: "nat \<Rightarrow> nat \<Rightarrow> 'a list \<Rightarrow> 'a list" where
  "py_slice i j xs = drop i (take j xs)"

text \<open>\<^verbatim>\<open>sep.join(parts)\<close>.\<close>

fun join :: "string \<Rightarrow> string list \<Rightarrow> string" where
  "join sep [] = []"
| "join sep [x] = x"
| "join sep (x # y # ys) = x @ sep @ join sep (y # ys)"

text \<open>\<^verbatim>\<open>s.split(c)[-1]\<close>: what follows the last \<open>c\<close>, the whole of \<open>s\<close> when there is none.\<close>

definition after_last :: "char \<Rightarrow> string \<Rightarrow> string" where
  "after_last c s = rev (takeWhile (\<lambda>x. x \<noteq> c) (rev s))"

text \<open>
  Characters are taken as code points below 256. \<^verbatim>\<open>str.isspace\<close> holds there for
  tab to carriage return, the four separators 28 to 31, space, 133 and 160.
\<close>

definition is_space :: "char \<Rightarrow> bool" where
  "is_space c = (of_char c \<in> set [9, 10, 11, 12, 13, 28, 29, 30, 31, 32, 133, 160 :: nat])"

definition strip :: "string \<Rightarrow> string" where
  "strip s = rev (dropWhile is_space (rev (dropWhile is_space s)))"

definition is_digit :: "char \<Rightarrow> bool" where
  "is_digit c = (48 \<le> (of_char c :: nat) \<and> (of_char c :: nat) \<le> 57)"

text \<open>
  \<^verbatim>\<open>s.isdigit()\<close>: below 256 it holds of the ASCII digits and of the superscripts
  178, 179 and 185, which are digits and no decimal digits.
\<close>

definition isdigit :: "string \<Rightarrow> bool" where
  "isdigit s = (s \<noteq> [] \<and> list_all (\<lambda>c. is_digit c \<or> of_char c \<in> set [178, 179, 185 :: nat]) s)"

text \<open>The number a string of ASCII digits denotes.\<close>

definition decimal_value :: "string \<Rightarrow> int" where
  "decimal_value s = foldl (\<lambda>acc c. 10 * acc + (int (of_char c) - 48)) 0 s"

fun digits_of_nat :: "nat \<Rightarrow> string" where
  "digits_of_nat n =
     (if n < 10 then [char_of (48 + n)]
      else digits_of_nat (n div 10) @ [char_of (48 + n mod 10)])"

declare digits_of_nat.simps [simp del]

text \<open>
  \<^verbatim>\<open>s.replace(old, '')\<close>: every occurrence of \<open>old\<close>, found from the left and not
  overlapping, is removed. With an empty \<open>old\<close> the string is returned as it is.
\<close>

fun remove_all :: "string \<Rightarrow> string \<Rightarrow> string" where
  "remove_all old [] = []"
| "remove_all old (c # cs) =
     (if old \<noteq> [] \<and> prefix old (c # cs) then remove_all old (drop (length old) (c # cs))
      else c # remove_all old cs)"

text \<open>\<^verbatim>\<open>f.readlines()\<close>: the text cut after every newline, the newline kept.\<close>

fun readlines :: "string \<Rightarrow> string list" where
  "readlines [] = []"
| "readlines (c # cs) =
     (if c = CHR 0x0A then [c] # readlines cs
      else (case readlines cs of [] \<Rightarrow> [[c]] | l # ls \<Rightarrow> (c # l) # ls))"

section \<open>The data model\<close>

record log_analysis =
  error_type :: json
  error_message :: json
  stack_trace :: json
  affected_files :: json
  severity :: json
  timestamp :: string

record solution =
  description :: json
  affected_files :: json
  code_changes :: json
  tests_needed :: json

record git_operation =
  branch_name :: string
  commit_message :: string
  files_changed :: "string list"
  success :: bool

record error_context =
  error_location :: json
  root_cause :: json
  relevant_code :: json
  summary :: json
  relevant_files :: "string list"

text \<open>One entry of the list \<^verbatim>\<open>find_relevant_files\<close> returns (a dict in the source).\<close>

record file_info =
  path :: string
  filename :: string
  line :: string
  content :: string
  relevance :: string

text \<open>
  \<^verbatim>\<open>CodebaseProvider\<close>: \<open>file_index\<close> maps a file name to one path, \<open>class_index\<close> a
  class name to the list of paths that declare it.
\<close>

record codebase_provider =
  file_index :: "string \<rightharpoonup> string"
  class_index :: "string \<rightharpoonup> string list"

section \<open>The world outside the program\<close>

text \<open>
  The four stack-frame patterns of \<^verbatim>\<open>find_relevant_files\<close>, in the order of the
  source: the Java frame \<^verbatim>\<open>at pkg.Class(File.java:123)\<close>, the Python frame
  \<^verbatim>\<open>File "script.py", line 123\<close>, the JavaScript frame \<^verbatim>\<open>file.js:123:45\<close> and the
  C\# frame \<^verbatim>\<open>File.cs:line 123\<close>.
\<close>

datatype frame_pattern = JavaFrame | PythonFrame | JsFrame | CsFrame

definition file_patterns :: "frame_pattern list" where
  "file_patterns = [JavaFrame, PythonFrame, JsFrame, CsFrame]"

text \<open>
  A prompt is a fixed template around the values it embeds; the model keeps the values.
  The excerpts of a localisation prompt are (position, file name, line, relevance,
  first 500 characters of the content).
\<close>

datatype prompt =
    AnalyzePrompt "json list"
  | LocatePrompt json json json json "(nat \<times> string \<times> string \<times> string \<times> string) list"
  | SolutionPrompt json json string json json "(json \<times> json \<times> json \<times> json) option" string
  | FixPrompt string json json string

text \<open>
  What a run does to the outside: a stage agent's method is entered, a completion is
  requested (agent, prompt, token budget), a git command runs, a directory is made, a
  file is written, the observer callback is called.
\<close>

datatype event =
    Invoked string
  | Completion string prompt nat
  | Git "string list"
  | MakeDirs string
  | WriteFile string string
  | Callback string string string

record proc =
  returncode :: int
  stdout :: string
  stderr :: string

text \<open>
  Everything the program asks of its environment is a parameter, so a theorem holds for
  every file system, regular-expression result, model reply and git behaviour:
  \<^item> \<open>read_text p\<close>: \<^verbatim>\<open>open(p, 'r', encoding='utf-8', errors='ignore')\<close> followed by
    reading the whole text, or the exception raised;
  \<^item> \<open>frame_matches pat s\<close>: \<^verbatim>\<open>re.findall\<close> of a stack-frame pattern on \<open>s\<close>, each
    match reduced to its first two groups (the source reads no other);
  \<^item> \<open>capitalized_words s\<close>: \<^verbatim>\<open>re.findall\<close> of the capitalised-token pattern;
  \<^item> \<open>json_loads\<close>: \<^verbatim>\<open>json.loads\<close>;
  \<^item> \<open>py_repr\<close>: how an f-string renders a value that is not a \<^verbatim>\<open>str\<close>;
  \<^item> \<open>llm\<close>: the reply of the completion endpoint, which may depend on all that
    happened before, or the exception \<^verbatim>\<open>call_claude\<close> raises;
  \<^item> \<open>now_iso\<close>, \<open>now_stamp\<close>: \<^verbatim>\<open>datetime.now()\<close> as the two formats the source uses;
  \<^item> \<open>git\<close>: the outcome of \<^verbatim>\<open>subprocess.run\<close> on a command, or the exception it
    raises before any process ran;
  \<^item> \<open>makedirs\<close>, \<open>write_text\<close>: \<^verbatim>\<open>os.makedirs(d, exist_ok=True)\<close> and opening a
    file for writing and writing it; \<open>Some e\<close> is the exception raised;
  \<^item> \<open>int_max_str_digits\<close>: \<^verbatim>\<open>sys.get_int_max_str_digits()\<close>, the longest decimal
    literal \<^verbatim>\<open>int\<close> converts: 4300 unless the interpreter is configured otherwise,
    0 for no limit;
  \<^item> \<open>encode_stdout s\<close>: the \<^verbatim>\<open>UnicodeEncodeError\<close> that \<^verbatim>\<open>print\<close> raises when
    standard output cannot encode the text \<open>s\<close>, \<open>None\<close> when it can. Under UTF-8
    the texts it cannot encode are those with an unpaired surrogate, which
    \<^verbatim>\<open>json.loads\<close> yields for an escape such as \<^verbatim>\<open>\ud83d\<close>. The characters of the
    model are 8-bit: a code that no character test of the program tells from an
    unpaired surrogate (no white space, no digit, no word character, unchanged by
    \<^verbatim>\<open>lower\<close>) stands for one in a text the environment has standard output reject.
\<close>

record env =
  read_text :: "string \<Rightarrow> exc + string"
  frame_matches :: "frame_pattern \<Rightarrow> string \<Rightarrow> (string \<times> string) list"
  capitalized_words :: "string \<Rightarrow> string list"
  json_loads :: "string \<Rightarrow> exc + json"
  py_repr :: "json \<Rightarrow> string"
  llm :: "event list \<Rightarrow> prompt \<Rightarrow> exc + string"
  now_iso :: string
  now_stamp :: string
  git :: "string list \<Rightarrow> exc + proc"
  makedirs :: "string \<Rightarrow> exc option"
  write_text :: "string \<Rightarrow> string \<Rightarrow> exc option"
  int_max_str_digits :: nat
  encode_stdout :: "string \<Rightarrow> exc option"

text \<open>
  \<^verbatim>\<open>int(s)\<close>: a \<^verbatim>\<open>ValueError\<close> for a text that is no decimal literal, and for a
  literal with more digits than the limit of the interpreter.
\<close>

definition py_int :: "env \<Rightarrow> string \<Rightarrow> exc + int" where
  "py_int env s =
     (if s = [] \<or> \<not> list_all is_digit s
      then Inl (Exc ValueError (''invalid literal for int() with base 10: '' @ [CHR 0x27] @ s @ [CHR 0x27]))
      else if 0 < int_max_str_digits env \<and> int_max_str_digits env < length s
      then Inl (Exc ValueError
             (''Exceeds the limit ('' @ digits_of_nat (int_max_str_digits env)
              @ '' digits) for integer string conversion: value has ''
              @ digits_of_nat (length s)
              @ '' digits; use sys.set_int_max_str_digits() to increase the limit''))
      else Inr (decimal_value s))"

section \<open>CodebaseProvider: building the index\<close>










definition is_word_char :: "char \<Rightarrow> bool" where
  "is_word_char c =
     (let n = (of_char c :: nat)
      in (48 \<le> n \<and> n \<le> 57) \<or> (65 \<le> n \<and> n \<le> 90) \<or> (97 \<le> n \<and> n \<le> 122) \<or> n = 95
         \<or> n \<in> set [170, 178, 179, 181, 185, 186, 188, 189, 190]
         \<or> (192 \<le> n \<and> n \<le> 214) \<or> (216 \<le> n \<and> n \<le> 246) \<or> (248 \<le> n \<and> n \<le> 255))"

fun match_keywords :: "string list \<Rightarrow> string \<Rightarrow> string option" where
  "match_keywords [] s = Some s"
| "match_keywords (kw # kws) s =
     (if prefix kw s \<and> takeWhile is_space (drop (length kw) s) \<noteq> []
      then match_keywords kws (dropWhile is_space (drop (length kw) s))
      else None)"

text \<open>A match at the start of \<open>s\<close>: the captured name and how many characters matched.\<close>

definition match_decl :: "string list \<Rightarrow> string \<Rightarrow> (string \<times> nat) option" where
  "match_decl kws s =
     (case match_keywords kws s of
        None \<Rightarrow> None
      | Some r \<Rightarrow>
          (if takeWhile is_word_char r = [] then None
           else Some (takeWhile is_word_char r, length s - length (dropWhile is_word_char r))))"

text \<open>\<^verbatim>\<open>re.findall(pattern, content)\<close>: scanning resumes where a match ended.\<close>

function re_findall_decl :: "string list \<Rightarrow> string \<Rightarrow> string list" where
  "re_findall_decl kws s =
     (if s = [] then []
      else (case match_decl kws s of
              Some (name, n) \<Rightarrow> name # re_findall_decl kws (drop (max 1 n) s)
            | None \<Rightarrow> re_findall_decl kws (tl s)))"
  by pat_completeness auto
termination
  by (relation "measure (\<lambda>(kws, s). length s)") auto

declare re_findall_decl.simps [simp del]




section \<open>CodebaseProvider: queries\<close>

text \<open>
  \<^verbatim>\<open>_read_file_excerpt\<close>: the body of the \<^verbatim>\<open>try\<close>, then the handler that
  turns any exception into a text.
\<close>

definition read_file_excerpt_body :: "env \<Rightarrow> string \<Rightarrow> int option \<Rightarrow> int \<Rightarrow> exc + string" where
  "read_file_excerpt_body env file_path line_number context_lines =
     (case read_text env file_path of
        Inl e \<Rightarrow> Inl e
      | Inr txt \<Rightarrow>
          (let lines = readlines txt in
           (case line_number of
              Some n \<Rightarrow>
                (if n \<noteq> 0 \<and> 0 < n \<and> n \<le> int (length lines) then
                   (let start = nat (max 0 (n - context_lines - 1));
                        end = nat (min (int (length lines)) (n + context_lines));
                        excerpt = concat (py_slice start end lines)
                    in Inr (''... (lines '' @ digits_of_nat (start + 1) @ ''-'' @ digits_of_nat end
                            @ '') ...'' @ [CHR 0x0A] @ excerpt))
                 else Inr (''... (first 20 lines) ...'' @ [CHR 0x0A] @ concat (take 20 lines)))
            | None \<Rightarrow> Inr (''... (first 20 lines) ...'' @ [CHR 0x0A] @ concat (take 20 lines)))))"

definition read_error_text :: "exc \<Rightarrow> string" where
  "read_error_text e = ''[Error reading file: '' @ exc_str e @ '']''"

definition read_file_excerpt :: "env \<Rightarrow> string \<Rightarrow> int option \<Rightarrow> int \<Rightarrow> exc + string" where
  "read_file_excerpt env file_path line_number context_lines =
     (case read_file_excerpt_body env file_path line_number context_lines of
        Inl e \<Rightarrow> Inr (read_error_text e)
      | Inr s \<Rightarrow> Inr s)"

text \<open>\<^verbatim>\<open>get_file_content\<close>: the whole text, or the same error text.\<close>

definition get_file_content :: "env \<Rightarrow> string \<Rightarrow> string" where
  "get_file_content env file_path =
     (case read_text env file_path of Inl e \<Rightarrow> read_error_text e | Inr txt \<Rightarrow> txt)"

text \<open>
  \<^verbatim>\<open>find_relevant_files\<close>. The state of its two loops is the pair
  (\<^verbatim>\<open>relevant_files\<close>, \<^verbatim>\<open>seen_paths\<close>).
\<close>

type_synonym found = "file_info list \<times> string list"

text \<open>
  \<^verbatim>\<open>int(line_number) if line_number.isdigit() else None\<close>, evaluated in
  \<^verbatim>\<open>find_relevant_files\<close> itself, outside every \<^verbatim>\<open>try\<close>.
\<close>

definition line_argument :: "env \<Rightarrow> string \<Rightarrow> exc + int option" where
  "line_argument env line_number =
     (if isdigit line_number
      then (case py_int env line_number of Inl e \<Rightarrow> Inl e | Inr n \<Rightarrow> Inr (Some n))
      else Inr None)"

definition add_frame_match :: "env \<Rightarrow> codebase_provider \<Rightarrow> string \<times> string \<Rightarrow> found \<Rightarrow> exc + found" where
  "add_frame_match env cp m st =
     (let fname = after_last (CHR 0x5C) (after_last (CHR ''/'') (fst m));
          line_number = snd m
      in (case file_index cp fname of
            None \<Rightarrow> Inr st
          | Some file_path \<Rightarrow>
              (if file_path \<in> set (snd st) then Inr st
               else (case line_argument env line_number of
                       Inl e \<Rightarrow> Inl e
                     | Inr line_arg \<Rightarrow>
                         (case read_file_excerpt env file_path line_arg 10 of
                            Inl e \<Rightarrow> Inl e
                          | Inr txt \<Rightarrow>
                              Inr (fst st @ [\<lparr>path = file_path, filename = fname, line = line_number,
                                              content = txt, relevance = ''stack_trace''\<rparr>],
                                   snd st @ [file_path]))))))"

definition add_class_path :: "env \<Rightarrow> string \<Rightarrow> found \<Rightarrow> exc + found" where
  "add_class_path env file_path st =
     (if file_path \<in> set (snd st) then Inr st
      else (case read_file_excerpt env file_path None 10 of
              Inl e \<Rightarrow> Inl e
            | Inr txt \<Rightarrow>
                Inr (fst st @ [\<lparr>path = file_path, filename = after_last (CHR ''/'') file_path,
                                line = ''?'', content = txt, relevance = ''class_match''\<rparr>],
                     snd st @ [file_path])))"

definition add_word :: "env \<Rightarrow> codebase_provider \<Rightarrow> string \<Rightarrow> found \<Rightarrow> exc + found" where
  "add_word env cp word st =
     (case class_index cp word of
        None \<Rightarrow> Inr st
      | Some paths \<Rightarrow> for_each (add_class_path env) (take 2 paths) st)"

definition find_relevant_files ::
    "env \<Rightarrow> codebase_provider \<Rightarrow> string \<Rightarrow> string \<Rightarrow> int \<Rightarrow> exc + file_info list" where
  "find_relevant_files env cp stack_trace_text error_text max_files =
     (case for_each (\<lambda>pat. for_each (add_frame_match env cp) (frame_matches env pat stack_trace_text))
             file_patterns ([], []) of
        Inl e \<Rightarrow> Inl e
      | Inr st \<Rightarrow>
          (case for_each (add_word env cp) (capitalized_words env error_text) st of
             Inl e \<Rightarrow> Inl e
           | Inr st' \<Rightarrow> Inr (py_take max_files (fst st'))))"

section \<open>Programs over the trace of a run\<close>

text \<open>
  A stage of the pipeline is a function from the events so far to a result or an
  exception, and the events after it. Console output is no event. An operation inside a
  log or print statement that can raise is a step, and so is a line of
  \<^verbatim>\<open>process_logs\<close> that shows a value, which raises when standard output cannot
  encode it.
\<close>

type_synonym 'a prog = "event list \<Rightarrow> (exc + 'a) \<times> event list"

definition ret :: "'a \<Rightarrow> 'a prog" where
  "ret x h = (Inr x, h)"

definition raise :: "exc \<Rightarrow> 'a prog" where
  "raise e h = (Inl e, h)"

definition lift :: "exc + 'a \<Rightarrow> 'a prog" where
  "lift r h = (r, h)"

definition emit :: "event \<Rightarrow> unit prog" where
  "emit ev h = (Inr (), h @ [ev])"

text \<open>Sequencing: an exception of the first part skips the second.\<close>

definition seq :: "'a prog \<Rightarrow> ('a \<Rightarrow> 'b prog) \<Rightarrow> 'b prog" where
  "seq m f h = (case m h of (Inl e, h') \<Rightarrow> (Inl e, h') | (Inr x, h') \<Rightarrow> f x h')"

fun for_each_prog :: "('a \<Rightarrow> 's \<Rightarrow> 's prog) \<Rightarrow> 'a list \<Rightarrow> 's \<Rightarrow> 's prog" where
  "for_each_prog f [] s = ret s"
| "for_each_prog f (x # xs) s = seq (f x s) (for_each_prog f xs)"

section \<open>Python operations on values\<close>

text \<open>\<^verbatim>\<open>d.get(key, default)\<close> on a dict.\<close>

definition dict_get :: "(string \<times> json) list \<Rightarrow> string \<Rightarrow> json \<Rightarrow> json" where
  "dict_get d key dflt = (case map_of d key of None \<Rightarrow> dflt | Some v \<Rightarrow> v)"

text \<open>How an f-string renders a value: a \<^verbatim>\<open>str\<close> as itself.\<close>

definition py_format :: "env \<Rightarrow> json \<Rightarrow> string" where
  "py_format env v = (case v of JStr s \<Rightarrow> s | _ \<Rightarrow> py_repr env v)"

text \<open>\<^verbatim>\<open>len(v)\<close>: a \<^verbatim>\<open>TypeError\<close> on a value that has no length.\<close>

definition py_len :: "json \<Rightarrow> exc + nat" where
  "py_len v =
     (case v of
        JStr s \<Rightarrow> Inr (length s)
      | JArr xs \<Rightarrow> Inr (length xs)
      | JObj kvs \<Rightarrow> Inr (length kvs)
      | _ \<Rightarrow> Inl (Exc TypeError ''object has no len()''))"

text \<open>Iterating a value: the characters of a string, the items of a list, the keys of a dict.\<close>

definition py_iter :: "json \<Rightarrow> exc + json list" where
  "py_iter v =
     (case v of
        JStr s \<Rightarrow> Inr (map (\<lambda>c. JStr [c]) s)
      | JArr xs \<Rightarrow> Inr xs
      | JObj kvs \<Rightarrow> Inr (map (\<lambda>kv. JStr (fst kv)) kvs)
      | _ \<Rightarrow> Inl (Exc TypeError ''object is not iterable''))"

fun str_items :: "json list \<Rightarrow> exc + string list" where
  "str_items [] = Inr []"
| "str_items (JStr s # xs) = (case str_items xs of Inl e \<Rightarrow> Inl e | Inr ss \<Rightarrow> Inr (s # ss))"
| "str_items (x # xs) = Inl (Exc TypeError ''sequence item: expected str instance'')"

text \<open>\<^verbatim>\<open>sep.join(v)\<close>: every item must be a \<^verbatim>\<open>str\<close>.\<close>

definition py_join :: "string \<Rightarrow> json \<Rightarrow> exc + string" where
  "py_join sep v =
     (case py_iter v of
        Inl e \<Rightarrow> Inl (Exc TypeError ''can only join an iterable'')
      | Inr xs \<Rightarrow> (case str_items xs of Inl e \<Rightarrow> Inl e | Inr ss \<Rightarrow> Inr (join sep ss)))"

text \<open>\<^verbatim>\<open>', '.join(v) if v else dflt\<close>.\<close>

definition joined_or :: "json \<Rightarrow> string \<Rightarrow> exc + string" where
  "joined_or v dflt = (if truthy v then py_join '', '' v else Inr dflt)"

text \<open>\<^verbatim>\<open>v[:100]\<close> inside a log line: only whether it raises matters.\<close>

definition slice_check :: "json \<Rightarrow> exc + unit" where
  "slice_check v =
     (case v of
        JStr s \<Rightarrow> Inr ()
      | JArr xs \<Rightarrow> Inr ()
      | _ \<Rightarrow> Inl (Exc TypeError ''object is not subscriptable''))"

text \<open>\<^verbatim>\<open>os.path.basename\<close>, \<^verbatim>\<open>os.path.dirname\<close> and \<^verbatim>\<open>os.path.join\<close> of two parts (POSIX).\<close>

definition basename :: "string \<Rightarrow> string" where
  "basename p = after_last (CHR ''/'') p"

definition dirname :: "string \<Rightarrow> string" where
  "dirname p =
     (let head = take (length p - length (after_last (CHR ''/'') p)) p
      in if head \<noteq> [] \<and> \<not> list_all (\<lambda>c. c = CHR ''/'') head
         then rev (dropWhile (\<lambda>c. c = CHR ''/'') (rev head)) else head)"

definition path_join :: "string \<Rightarrow> string \<Rightarrow> string" where
  "path_join a b =
     (if b \<noteq> [] \<and> hd b = CHR ''/'' then b
      else if a = [] \<or> last a = CHR ''/'' then a @ b
      else a @ ''/'' @ b)"

section \<open>The completion client and the reply contract\<close>

text \<open>
  \<^verbatim>\<open>BaseAgent.call_claude\<close>: one request; the reply, or the exception raised on a bad
  status or a response without choices.
\<close>

definition call_claude :: "env \<Rightarrow> string \<Rightarrow> prompt \<Rightarrow> nat \<Rightarrow> string prog" where
  "call_claude env name p max_tokens h = (llm env h p, h @ [Completion name p max_tokens])"

text \<open>The four replacements and the \<^verbatim>\<open>strip\<close> each JSON stage applies to a reply.\<close>

definition clean_response :: "string \<Rightarrow> string" where
  "clean_response response =
     strip (remove_all ''```''
       (remove_all (''```'' @ [CHR 0x0A])
         (remove_all ''```json''
           (remove_all (''```json'' @ [CHR 0x0A]) response))))"

text \<open>\<^verbatim>\<open>if isinstance(data, list): data = data[0] if len(data) > 0 else {}\<close>.\<close>

definition first_if_list :: "json \<Rightarrow> json" where
  "first_if_list data =
     (case data of
        JArr xs \<Rightarrow> (case xs of [] \<Rightarrow> JObj [] | x # rest \<Rightarrow> x)
      | _ \<Rightarrow> data)"

text \<open>
  The parsing the three JSON stages share, written three times in the source: clean,
  \<^verbatim>\<open>json.loads\<close>, unwrap a list once, and reject what is not a dict. The handlers log
  and re-raise, so the exception is unchanged.
\<close>

definition parse_reply :: "env \<Rightarrow> string \<Rightarrow> exc + (string \<times> json) list" where
  "parse_reply env response =
     (case json_loads env (clean_response response) of
        Inl e \<Rightarrow> Inl e
      | Inr data \<Rightarrow>
          (case first_if_list data of
             JObj kvs \<Rightarrow> Inr kvs
           | _ \<Rightarrow> Inl (Exc ValueError ''API yaniti sozluk formatinda degil'')))"

section \<open>The stage agents\<close>

text \<open>\<^verbatim>\<open>LogAnalyzerAgent.analyze_logs\<close>: the typed result built from a reply.\<close>

definition analysis_of_reply :: "env \<Rightarrow> string \<Rightarrow> exc + log_analysis" where
  "analysis_of_reply env response =
     (case parse_reply env response of
        Inl e \<Rightarrow> Inl e
      | Inr data \<Rightarrow>
          Inr \<lparr>error_type = dict_get data ''error_type'' (JStr ''Unknown Error''),
               error_message = dict_get data ''error_message'' (JStr ''No message''),
               stack_trace = dict_get data ''stack_trace'' (JStr ''No stack trace''),
               log_analysis.affected_files = dict_get data ''affected_files'' (JArr []),
               severity = dict_get data ''severity'' (JStr ''medium''),
               timestamp = now_iso env\<rparr>)"

definition analyze_logs :: "env \<Rightarrow> json list \<Rightarrow> log_analysis prog" where
  "analyze_logs env elk_logs_json =
     seq (emit (Invoked ''LogAnalyzer'')) (\<lambda>u.
     seq (call_claude env ''LogAnalyzer'' (AnalyzePrompt elk_logs_json) 4000) (\<lambda>response.
     lift (analysis_of_reply env response)))"

text \<open>
  \<^verbatim>\<open>find_relevant_files\<close> as \<^verbatim>\<open>locate_error\<close> calls it, on fields that may hold any
  value: \<^verbatim>\<open>re.findall\<close> raises on what is not a string.
\<close>

definition find_relevant_files_of :: "env \<Rightarrow> codebase_provider \<Rightarrow> json \<Rightarrow> json \<Rightarrow> int \<Rightarrow> exc + file_info list" where
  "find_relevant_files_of env cp st msg max_files =
     (case st of
        JStr s \<Rightarrow>
          (case msg of
             JStr m \<Rightarrow> find_relevant_files env cp s m max_files
           | _ \<Rightarrow> Inl (Exc TypeError ''expected string or bytes-like object''))
      | _ \<Rightarrow> Inl (Exc TypeError ''expected string or bytes-like object''))"

text \<open>The excerpt lines of the localisation prompt, numbered from 1.\<close>

definition excerpts :: "file_info list \<Rightarrow> (nat \<times> string \<times> string \<times> string \<times> string) list" where
  "excerpts files =
     map (\<lambda>(idx, f). (Suc idx, filename f, line f, relevance f, take 500 (content f)))
         (enumerate 0 files)"

definition context_of_reply :: "env \<Rightarrow> string list \<Rightarrow> string \<Rightarrow> exc + error_context" where
  "context_of_reply env relevant_file_paths response =
     (case parse_reply env response of
        Inl e \<Rightarrow> Inl e
      | Inr data \<Rightarrow>
          (let ec = \<lparr>error_location = dict_get data ''error_location'' (JStr ''Unknown''),
                     root_cause = dict_get data ''root_cause'' (JStr ''Unknown''),
                     relevant_code = dict_get data ''relevant_code'' (JStr ''N/A''),
                     summary = dict_get data ''summary'' (JStr ''No summary available''),
                     relevant_files = relevant_file_paths\<rparr>
           in (case slice_check (root_cause ec) of Inl e \<Rightarrow> Inl e | Inr u \<Rightarrow> Inr ec)))"

text \<open>
  \<^verbatim>\<open>ErrorLocatorAgent.locate_error\<close>. The local variable \<^verbatim>\<open>prompt\<close> is assigned inside
  the body of \<^verbatim>\<open>if codebase_provider:\<close> only; \<open>None\<close> is the unbound variable, and
  reading it for the completion call raises \<^verbatim>\<open>UnboundLocalError\<close>.
\<close>

definition locate_error :: "env \<Rightarrow> log_analysis \<Rightarrow> codebase_provider option \<Rightarrow> error_context prog" where
  "locate_error env analysis codebase_provider =
     seq (emit (Invoked ''ErrorLocator'')) (\<lambda>u.
     seq (case codebase_provider of
            None \<Rightarrow> ret ([], None)
          | Some cp \<Rightarrow>
              seq (lift (find_relevant_files_of env cp (stack_trace analysis) (error_message analysis) 10))
                (\<lambda>found_files.
                   ret (map path found_files,
                        Some (LocatePrompt (error_type analysis) (error_message analysis)
                                (severity analysis) (stack_trace analysis) (excerpts found_files)))))
       (\<lambda>(relevant_file_paths, prompt_var).
          (case prompt_var of
             None \<Rightarrow>
               raise (Exc UnboundLocalError
                  ''cannot access local variable 'prompt' where it is not associated with a value'')
           | Some p \<Rightarrow>
               seq (call_claude env ''ErrorLocator'' p 3000) (\<lambda>response.
               lift (context_of_reply env relevant_file_paths response)))))"

definition solution_of_reply :: "env \<Rightarrow> string \<Rightarrow> exc + solution" where
  "solution_of_reply env response =
     (case parse_reply env response of
        Inl e \<Rightarrow> Inl e
      | Inr data \<Rightarrow>
          (let sol = \<lparr>description = dict_get data ''description'' (JStr ''No description''),
                      affected_files = dict_get data ''affected_files'' (JArr []),
                      code_changes = dict_get data ''code_changes'' (JObj []),
                      tests_needed = dict_get data ''tests_needed'' (JArr [])\<rparr>
           in (case py_len (affected_files sol) of Inl e \<Rightarrow> Inl e | Inr n \<Rightarrow> Inr sol)))"

text \<open>\<^verbatim>\<open>SolutionArchitectAgent.propose_solution\<close>.\<close>

definition propose_solution :: "env \<Rightarrow> log_analysis \<Rightarrow> error_context option \<Rightarrow> string \<Rightarrow> solution prog" where
  "propose_solution env analysis error_context codebase_context =
     seq (emit (Invoked ''SolutionArchitect'')) (\<lambda>u.
     seq (lift (joined_or (log_analysis.affected_files analysis) ''Bilinmiyor'')) (\<lambda>files_text.
     seq (call_claude env ''SolutionArchitect''
            (SolutionPrompt (error_type analysis) (error_message analysis) files_text
               (severity analysis) (stack_trace analysis)
               (case error_context of
                  None \<Rightarrow> None
                | Some ec \<Rightarrow> Some (error_location ec, root_cause ec, relevant_code ec, summary ec))
               codebase_context) 3000) (\<lambda>response.
     lift (solution_of_reply env response))))"

text \<open>The seven replacements and the \<^verbatim>\<open>strip\<close> applied to generated code.\<close>

definition clean_code :: "string \<Rightarrow> string" where
  "clean_code reply =
     strip (remove_all ''```''
       (remove_all (''```'' @ [CHR 0x0A])
         (remove_all (''```cs'' @ [CHR 0x0A])
           (remove_all (''```csharp'' @ [CHR 0x0A])
             (remove_all (''```java'' @ [CHR 0x0A])
               (remove_all (''```javascript'' @ [CHR 0x0A])
                 (remove_all (''```python'' @ [CHR 0x0A]) reply)))))))"

text \<open>
  The body of the loop of \<^verbatim>\<open>generate_fix\<close> for one item of
  \<^verbatim>\<open>solution.affected_files\<close>. An item that is a list or a dict cannot be a key of
  \<^verbatim>\<open>file_contents\<close>; another item that is not a string has no preloaded content, and
  \<^verbatim>\<open>os.path.basename\<close> rejects it when an index is there.
\<close>

definition fix_file ::
    "env \<Rightarrow> solution \<Rightarrow> (string \<rightharpoonup> string) \<Rightarrow> codebase_provider option \<Rightarrow> json
      \<Rightarrow> (string \<times> string) list \<Rightarrow> (string \<times> string) list prog" where
  "fix_file env sol file_contents codebase_provider file_path fixed_files =
     (case file_path of
        JStr p \<Rightarrow>
          (let preloaded = (case file_contents p of None \<Rightarrow> [] | Some c \<Rightarrow> c);
               original_content =
                 (if preloaded = [] then
                    (case codebase_provider of
                       None \<Rightarrow> preloaded
                     | Some cp \<Rightarrow>
                         (case file_index cp (basename p) of
                            None \<Rightarrow> preloaded
                          | Some full_path \<Rightarrow> get_file_content env full_path))
                  else preloaded)
           in if original_content = [] then ret fixed_files
              else
                (case code_changes sol of
                   JObj changes \<Rightarrow>
                     seq (call_claude env ''CodeGenerator''
                            (FixPrompt p (dict_get changes p (JStr [])) (description sol) original_content)
                            4000) (\<lambda>reply.
                     ret (AList.update p (clean_code reply) fixed_files))
                 | _ \<Rightarrow> raise (Exc AttributeError ''object has no attribute 'get' '')))
      | JArr xs \<Rightarrow> raise (Exc TypeError ''unhashable type: 'list' '')
      | JObj kvs \<Rightarrow> raise (Exc TypeError ''unhashable type: 'dict' '')
      | _ \<Rightarrow>
          (case codebase_provider of
             None \<Rightarrow> ret fixed_files
           | Some cp \<Rightarrow> raise (Exc TypeError ''expected str, bytes or os.PathLike object'')))"

text \<open>
  \<^verbatim>\<open>CodeGeneratorAgent.generate_fix\<close>. Its parameter \<^verbatim>\<open>save_changes_callback\<close> is never
  read in the source and is left out. The result is the dict \<^verbatim>\<open>fixed_files\<close> as its
  items in insertion order.
\<close>

definition generate_fix ::
    "env \<Rightarrow> solution \<Rightarrow> (string \<rightharpoonup> string) \<Rightarrow> codebase_provider option \<Rightarrow> (string \<times> string) list prog" where
  "generate_fix env sol file_contents codebase_provider =
     seq (emit (Invoked ''CodeGenerator'')) (\<lambda>u.
     seq (lift (py_iter (affected_files sol))) (\<lambda>items.
     for_each_prog (fix_file env sol file_contents codebase_provider) items []))"

section \<open>The version-control stage\<close>

text \<open>\<^verbatim>\<open>str.lower\<close> on code points below 256, and \<^verbatim>\<open>s.replace(a, b)\<close> for characters.\<close>

definition to_lower :: "char \<Rightarrow> char" where
  "to_lower c =
     (let n = (of_char c :: nat)
      in if (65 \<le> n \<and> n \<le> 90) \<or> (192 \<le> n \<and> n \<le> 222 \<and> n \<noteq> 215) then char_of (n + 32) else c)"

definition replace_char :: "char \<Rightarrow> char \<Rightarrow> string \<Rightarrow> string" where
  "replace_char a b s = map (\<lambda>c. if c = a then b else c) s"

definition error_slug_of :: "string \<Rightarrow> string" where
  "error_slug_of t = replace_char (CHR ''_'') (CHR ''-'') (replace_char (CHR '' '') (CHR ''-'') (map to_lower t))"

text \<open>
  \<^verbatim>\<open>subprocess.run\<close> of a git command, without and with \<^verbatim>\<open>check=True\<close>: the latter
  raises \<^verbatim>\<open>CalledProcessError\<close> on a non-zero exit status.
\<close>

definition run_git :: "env \<Rightarrow> string list \<Rightarrow> proc prog" where
  "run_git env cmd = seq (emit (Git cmd)) (\<lambda>u. lift (git env cmd))"

definition run_git_checked :: "env \<Rightarrow> string list \<Rightarrow> proc prog" where
  "run_git_checked env cmd =
     seq (run_git env cmd) (\<lambda>p.
       if returncode p \<noteq> 0 then raise (Exc CalledProcessError ''returned non-zero exit status'')
       else ret p)"

text \<open>\<^verbatim>\<open>try: ... except subprocess.CalledProcessError as e: ...\<close>: no other class is caught.\<close>

definition except_called_process_error :: "'a prog \<Rightarrow> (exc \<Rightarrow> 'a prog) \<Rightarrow> 'a prog" where
  "except_called_process_error m handler h =
     (case m h of
        (Inl e, h') \<Rightarrow> (if exc_class_of e = CalledProcessError then handler e h' else (Inl e, h'))
      | (Inr x, h') \<Rightarrow> (Inr x, h'))"

text \<open>Where a fixed file is written: the indexed path of its base name, else under the repository.\<close>

definition target_path :: "string \<Rightarrow> codebase_provider option \<Rightarrow> string \<Rightarrow> string" where
  "target_path repo_path codebase_provider file_path =
     (case (case codebase_provider of None \<Rightarrow> None | Some cp \<Rightarrow> file_index cp (basename file_path)) of
        None \<Rightarrow> path_join repo_path file_path
      | Some full_path \<Rightarrow> (if full_path = [] then path_join repo_path file_path else full_path))"

text \<open>The body of the write loop for one item of \<^verbatim>\<open>fixed_files\<close>.\<close>

definition write_fixed_file ::
    "env \<Rightarrow> string \<Rightarrow> codebase_provider option \<Rightarrow> string \<times> string \<Rightarrow> unit \<Rightarrow> unit prog" where
  "write_fixed_file env repo_path codebase_provider item u0 =
     (let full_path = target_path repo_path codebase_provider (fst item)
      in seq (emit (MakeDirs (dirname full_path))) (\<lambda>u.
         seq (lift (case makedirs env (dirname full_path) of Some e \<Rightarrow> Inl e | None \<Rightarrow> Inr ())) (\<lambda>u.
         seq (emit (WriteFile full_path (snd item))) (\<lambda>u.
         lift (case write_text env full_path (snd item) of Some e \<Rightarrow> Inl e | None \<Rightarrow> Inr ())))))"

definition commit_message_of :: "env \<Rightarrow> log_analysis \<Rightarrow> string" where
  "commit_message_of env analysis =
     ''Fix: '' @ py_format env (error_type analysis) @ [CHR 0x0A, CHR 0x0A]
     @ py_format env (error_message analysis) @ [CHR 0x0A, CHR 0x0A]
     @ ''Severity: '' @ py_format env (severity analysis) @ [CHR 0x0A]
     @ ''Auto-generated fix by AI Agent System'' @ [CHR 0x0A]
     @ ''Timestamp: '' @ timestamp analysis @ [CHR 0x0A]"

definition branch_name_of :: "env \<Rightarrow> string \<Rightarrow> string" where
  "branch_name_of env t = ''fix/'' @ error_slug_of t @ ''-'' @ now_stamp env"

text \<open>
  \<^verbatim>\<open>GitManagerAgent.create_fix_branch\<close>. The branch name is computed before the
  \<^verbatim>\<open>try\<close>, so an \<^verbatim>\<open>error_type\<close> that is not a string raises out of the function.
\<close>

definition create_fix_branch ::
    "env \<Rightarrow> string \<Rightarrow> log_analysis \<Rightarrow> (string \<times> string) list \<Rightarrow> codebase_provider option
      \<Rightarrow> git_operation prog" where
  "create_fix_branch env repo_path analysis fixed_files codebase_provider =
     seq (emit (Invoked ''GitManager'')) (\<lambda>u.
     (case error_type analysis of
        JStr t \<Rightarrow>
          except_called_process_error
            (seq (run_git_checked env [''git'', ''checkout'', ''-b'', branch_name_of env t]) (\<lambda>p.
             seq (for_each_prog (write_fixed_file env repo_path codebase_provider) fixed_files ()) (\<lambda>u.
             seq (run_git_checked env [''git'', ''add'', ''-A'']) (\<lambda>p.
             seq (run_git env [''git'', ''status'', ''--porcelain'']) (\<lambda>status_result.
             if strip (stdout status_result) = [] then
               seq (run_git env [''git'', ''checkout'', ''-'']) (\<lambda>p.
               seq (run_git env [''git'', ''branch'', ''-D'', branch_name_of env t]) (\<lambda>p.
               ret \<lparr>branch_name = [], commit_message = ''No changes to commit'',
                    files_changed = [], success = False\<rparr>))
             else
               seq (run_git env [''git'', ''commit'', ''-m'', commit_message_of env analysis]) (\<lambda>result.
               if returncode result \<noteq> 0
               then raise (Exc CalledProcessError ''returned non-zero exit status'')
               else ret \<lparr>branch_name = branch_name_of env t,
                         commit_message = commit_message_of env analysis,
                         files_changed = map fst fixed_files, success = True\<rparr>))))))
            (\<lambda>e. ret \<lparr>branch_name = branch_name_of env t, commit_message = [],
                      files_changed = [], success = False\<rparr>)
      | _ \<Rightarrow> raise (Exc AttributeError ''object has no attribute 'lower' '')))"

section \<open>The orchestrator\<close>

text \<open>The result of each early exit of \<^verbatim>\<open>process_logs\<close>.\<close>

definition no_operation :: git_operation where
  "no_operation = \<lparr>branch_name = [], commit_message = [], files_changed = [], success = False\<rparr>"

text \<open>
  The observer callback: called with (file name, original text, fixed text); \<open>Some e\<close> is
  the exception it raises.
\<close>

type_synonym callback = "string \<Rightarrow> string \<Rightarrow> string \<Rightarrow> exc option"

text \<open>The body of the callback loop of \<^verbatim>\<open>process_logs\<close> for one fixed file.\<close>

definition notify_change :: "env \<Rightarrow> codebase_provider \<Rightarrow> callback \<Rightarrow> string \<times> string \<Rightarrow> unit \<Rightarrow> unit prog" where
  "notify_change env cp save_changes_callback item u0 =
     (case file_index cp (basename (fst item)) of
        None \<Rightarrow> ret ()
      | Some original_path \<Rightarrow>
          seq (emit (Callback (basename (fst item)) (get_file_content env original_path) (snd item))) (\<lambda>u.
          lift (case save_changes_callback (basename (fst item)) (get_file_content env original_path) (snd item) of
                  Some e \<Rightarrow> Inl e
                | None \<Rightarrow> Inr ())))"

definition notify_changes ::
    "env \<Rightarrow> codebase_provider option \<Rightarrow> callback option \<Rightarrow> (string \<times> string) list \<Rightarrow> unit prog" where
  "notify_changes env codebase_provider save_changes_callback fixed_files =
     (case save_changes_callback of
        None \<Rightarrow> ret ()
      | Some cb \<Rightarrow>
          (case codebase_provider of
             None \<Rightarrow> ret ()
           | Some cp \<Rightarrow> for_each_prog (notify_change env cp cb) fixed_files ()))"

text \<open>\<^verbatim>\<open>not v or len(v) == 0\<close>: the length is taken of a truthy value only.\<close>

definition nothing_to_change :: "json \<Rightarrow> exc + bool" where
  "nothing_to_change v =
     (if \<not> truthy v then Inr True
      else (case py_len v of Inl e \<Rightarrow> Inl e | Inr n \<Rightarrow> Inr (n = 0)))"

text \<open>
  Console output of \<^verbatim>\<open>process_logs\<close>. A line that shows a value is written when
  standard output can encode it, else \<^verbatim>\<open>print\<close> raises; the constant lines of the
  program are taken as encodable, so a line without a value is not a step of the model.
  The three blocks are the lines 731 to 734, 739 to 744 and 749 to 751 of the source,
  each line in turn: an expression inside a line raises before the line is written.
\<close>

definition print_text :: "env \<Rightarrow> string \<Rightarrow> unit prog" where
  "print_text env s = lift (case encode_stdout env s of Some e \<Rightarrow> Inl e | None \<Rightarrow> Inr ())"

text \<open>\<^verbatim>\<open>print(f"label{', '.join(v) if v else 'constant'}")\<close>.\<close>

definition print_joined :: "env \<Rightarrow> string \<Rightarrow> json \<Rightarrow> unit prog" where
  "print_joined env label v =
     (if truthy v then seq (lift (py_join '', '' v)) (\<lambda>s. print_text env (label @ s)) else ret ())"

text \<open>
  \<^verbatim>\<open>print(f"label{v[:100]}...")\<close>: the first characters of a string, the first items
  of a list as the environment renders them.
\<close>

definition print_slice :: "env \<Rightarrow> string \<Rightarrow> json \<Rightarrow> nat \<Rightarrow> unit prog" where
  "print_slice env label v n =
     (case v of
        JStr s \<Rightarrow> print_text env (label @ take n s @ ''...'')
      | JArr xs \<Rightarrow> print_text env (label @ py_repr env (JArr (take n xs)) @ ''...'')
      | _ \<Rightarrow> raise (Exc TypeError ''object is not subscriptable''))"

definition show_analysis :: "env \<Rightarrow> log_analysis \<Rightarrow> unit prog" where
  "show_analysis env analysis =
     seq (print_text env (''   Hata: '' @ py_format env (error_type analysis))) (\<lambda>u.
     seq (print_text env (''   Severity: '' @ py_format env (severity analysis))) (\<lambda>u.
     print_joined env ''   Etkilenen dosyalar: '' (log_analysis.affected_files analysis)))"

text \<open>Line 744 shows a number of files: digits only.\<close>

definition show_location :: "env \<Rightarrow> error_context \<Rightarrow> unit prog" where
  "show_location env error_context =
     seq (print_text env (''   Lokasyon: '' @ py_format env (error_location error_context))) (\<lambda>u.
     seq (print_slice env ''   Root Cause: '' (root_cause error_context) 100) (\<lambda>u.
     print_text env (''   Summary: '' @ py_format env (summary error_context))))"

definition show_solution :: "env \<Rightarrow> solution \<Rightarrow> unit prog" where
  "show_solution env sol =
     seq (print_text env (''   '' @ py_format env (description sol))) (\<lambda>u.
     print_joined env ''   Files to Change: '' (affected_files sol))"

text \<open>
  \<^verbatim>\<open>Orchestrator.process_logs\<close>. The orchestrator's fields are the repository path of
  its git manager and its index, \<open>None\<close> when built with \<^verbatim>\<open>enable_rag=False\<close>. The
  lines written after code generation show the paths of the fixed files, the branch
  name and two numbers: the paths are items of the list that line 751 has written, and
  the branch name is made of the error type that line 732 has written, lower-cased, and
  of a time stamp; they are no steps of the model.
\<close>

definition process_logs ::
    "env \<Rightarrow> string \<Rightarrow> codebase_provider option \<Rightarrow> json list \<Rightarrow> (string \<rightharpoonup> string) option \<Rightarrow> string
      \<Rightarrow> callback option \<Rightarrow> git_operation prog" where
  "process_logs env repo_path codebase_provider elk_logs_json file_contents codebase_context
        save_changes_callback =
     (if elk_logs_json = [] then ret no_operation
      else
        seq (analyze_logs env elk_logs_json) (\<lambda>analysis.
        seq (show_analysis env analysis) (\<lambda>u.
        seq (locate_error env analysis codebase_provider) (\<lambda>error_context.
        seq (show_location env error_context) (\<lambda>u.
        seq (propose_solution env analysis (Some error_context) codebase_context) (\<lambda>sol.
        seq (show_solution env sol) (\<lambda>u.
        seq (lift (nothing_to_change (affected_files sol))) (\<lambda>stop.
        if stop then ret no_operation
        else
          seq (generate_fix env sol (case file_contents of None \<Rightarrow> Map.empty | Some fc \<Rightarrow> fc)
                 codebase_provider) (\<lambda>fixed_files.
          seq (notify_changes env codebase_provider save_changes_callback fixed_files) (\<lambda>u.
          if fixed_files = [] then ret no_operation
          else create_fix_branch env repo_path analysis fixed_files codebase_provider))))))))))"
section \<open>A small concrete world\<close>

text \<open>
  One environment on which the theorems below are instantiated: a repository with
  \<^verbatim>\<open>UserController.java\<close> readable and \<^verbatim>\<open>UserService.java\<close> not, a model that
  answers each stage with a fixed reply (an empty file list when the extra context is
  \<^verbatim>\<open>report only\<close>, and one with an escaped unpaired surrogate in its description
  when it is \<^verbatim>\<open>describe only\<close>), \<^verbatim>\<open>json.loads\<close> given on the texts that occur, a
  git in which every command succeeds and the working tree is changed, the default
  limit of 4300 digits, and a UTF-8 console.
\<close>

definition demo_trace :: string where
  "demo_trace = ''at app.UserController.getUser(UserController.java:45)''"

definition analysis_json :: string where
  \<open>analysis_json = ''{"error_type": "Null Pointer", "error_message": "UserService returned null", "stack_trace": "at app.UserController.getUser(UserController.java:45)"}''\<close>

definition locate_json :: string where
  \<open>locate_json = ''{"root_cause": "user is null"}''\<close>

definition solution_json :: string where
  \<open>solution_json = ''{"affected_files": ["UserController.java"], "code_changes": {"UserController.java": "add a null check"}}''\<close>

definition empty_solution_json :: string where
  \<open>empty_solution_json = ''{"affected_files": []}''\<close>

text \<open>
  The reply \<^verbatim>\<open>{"description": "fix \ud83d later", "affected_files": []}\<close> and the
  description \<^verbatim>\<open>json.loads\<close> makes of it. In this world the code 128 stands for the
  unpaired surrogate U+D83D, and the console rejects a text that holds it.
\<close>

definition surrogate_solution_json :: string where
  \<open>surrogate_solution_json =
     ''{"description": "fix '' @ [CHR 0x5C] @ ''ud83d later", "affected_files": []}''\<close>

definition lone_surrogate :: char where
  "lone_surrogate = CHR 0x80"

definition surrogate_description :: string where
  "surrogate_description = ''fix '' @ [lone_surrogate] @ '' later''"

text \<open>
  The \<^verbatim>\<open>UnicodeEncodeError\<close> of a UTF-8 console for that surrogate at a position of
  the line, and the console: it rejects a line at its first surrogate.
\<close>

definition surrogates_not_allowed :: "nat \<Rightarrow> exc" where
  "surrogates_not_allowed position =
     Exc UnicodeEncodeError
       ([CHR 0x27] @ ''utf-8'' @ [CHR 0x27] @ '' codec can't encode character ''
        @ [CHR 0x27, CHR 0x5C] @ ''ud83d'' @ [CHR 0x27] @ '' in position ''
        @ digits_of_nat position @ '': surrogates not allowed'')"

definition utf8_stdout :: "string \<Rightarrow> exc option" where
  "utf8_stdout s =
     (if lone_surrogate \<in> set s
      then Some (surrogates_not_allowed (length (takeWhile (\<lambda>c. c \<noteq> lone_surrogate) s)))
      else None)"

definition demo_loads :: "string \<Rightarrow> exc + json" where
  "demo_loads s =
     (if s = analysis_json then
        Inr (JObj [(''error_type'', JStr ''Null Pointer''),
                   (''error_message'', JStr ''UserService returned null''),
                   (''stack_trace'', JStr demo_trace)])
      else if s = locate_json then Inr (JObj [(''root_cause'', JStr ''user is null'')])
      else if s = solution_json then
        Inr (JObj [(''affected_files'', JArr [JStr ''UserController.java'']),
                   (''code_changes'', JObj [(''UserController.java'', JStr ''add a null check'')])])
      else if s = empty_solution_json then Inr (JObj [(''affected_files'', JArr [])])
      else if s = surrogate_solution_json then
        Inr (JObj [(''description'', JStr surrogate_description), (''affected_files'', JArr [])])
      else if s = ''[[{}]]'' then Inr (JArr [JArr [JObj []]])
      else if s = ''[{}]'' then Inr (JArr [JObj []])
      else if s = ''{}'' then Inr (JObj [])
      else Inl (Exc JSONDecodeError ''Expecting value''))"

definition analysis_reply :: string where
  "analysis_reply = ''```json'' @ [CHR 0x0A] @ analysis_json @ [CHR 0x0A] @ ''```''"

definition fix_reply :: string where
  "fix_reply = ''```java'' @ [CHR 0x0A] @ ''class UserController { }'' @ [CHR 0x0A] @ ''```''"

definition demo_llm :: "event list \<Rightarrow> prompt \<Rightarrow> exc + string" where
  "demo_llm h p =
     (case p of
        AnalyzePrompt logs \<Rightarrow> Inr analysis_reply
      | LocatePrompt a b c d e \<Rightarrow> Inr locate_json
      | SolutionPrompt a b c d e f ctx \<Rightarrow>
          Inr (if ctx = ''report only'' then empty_solution_json
               else if ctx = ''describe only'' then surrogate_solution_json
               else solution_json)
      | FixPrompt a b c d \<Rightarrow> Inr fix_reply)"

definition demo_git :: "string list \<Rightarrow> exc + proc" where
  "demo_git cmd =
     Inr (if cmd = [''git'', ''status'', ''--porcelain'']
          then \<lparr>returncode = 0, stdout = '' M src/UserController.java'' @ [CHR 0x0A], stderr = []\<rparr>
          else \<lparr>returncode = 0, stdout = [], stderr = []\<rparr>)"

definition demo_env :: env where
  "demo_env = \<lparr>
     read_text = (\<lambda>p. if p = ''/repo/src/UserController.java''
                      then Inr (''public class UserController {'' @ [CHR 0x0A] @ ''}'' @ [CHR 0x0A])
                      else Inl (Exc OSError ''[Errno 13] Permission denied'')),
     frame_matches = (\<lambda>pat s. if pat = JavaFrame \<and> s = demo_trace
                      then [(''UserController.java'', ''45'')] else []),
     capitalized_words = (\<lambda>s. if s = ''UserService returned null'' then [''UserService''] else []),
     json_loads = demo_loads,
     py_repr = (\<lambda>v. ''None''),
     llm = demo_llm,
     now_iso = ''2024-01-01T00:00:00'',
     now_stamp = ''20240101-000000'',
     git = demo_git,
     makedirs = (\<lambda>d. None),
     write_text = (\<lambda>p c. None),
     int_max_str_digits = 4300,
     encode_stdout = utf8_stdout\<rparr>"

definition demo_provider :: codebase_provider where
  "demo_provider = \<lparr>
     file_index = [''UserController.java'' \<mapsto> ''/repo/src/UserController.java''],
     class_index = [''UserService'' \<mapsto> [''/repo/src/UserService.java'']]\<rparr>"

definition demo_logs :: "json list" where
  "demo_logs = [JObj [(''message'', JStr ''NullPointerException in UserController'')]]"


definition demo_analysis :: log_analysis where
  "demo_analysis =
     \<lparr>error_type = JStr ''Null Pointer'', error_message = JStr ''UserService returned null'',
      stack_trace = JStr demo_trace, log_analysis.affected_files = JArr [],
      severity = JStr ''medium'', timestamp = ''2024-01-01T00:00:00''\<rparr>"

definition demo_context :: error_context where
  "demo_context =
     \<lparr>error_location = JStr ''Unknown'', root_cause = JStr ''user is null'',
      relevant_code = JStr ''N/A'', summary = JStr ''No summary available'',
      relevant_files = [''/repo/src/UserController.java'', ''/repo/src/UserService.java'']\<rparr>"

definition demo_solution :: solution where
  "demo_solution =
     \<lparr>description = JStr ''No description'',
      affected_files = JArr [JStr ''UserController.java''],
      code_changes = JObj [(''UserController.java'', JStr ''add a null check'')],
      tests_needed = JArr []\<rparr>"

definition demo_empty_solution :: solution where
  "demo_empty_solution =
     \<lparr>description = JStr ''No description'', affected_files = JArr [],
      code_changes = JObj [], tests_needed = JArr []\<rparr>"

definition surrogate_solution :: solution where
  "surrogate_solution =
     \<lparr>description = JStr surrogate_description, affected_files = JArr [],
      code_changes = JObj [], tests_needed = JArr []\<rparr>"

definition demo_fixed :: "(string \<times> string) list" where
  "demo_fixed = [(''UserController.java'', ''class UserController { }'')]"

text \<open>
  Variants of the git of that world: one whose commit fails for lack of an author
  identity, and one whose \<^verbatim>\<open>git status\<close> fails and prints nothing.
\<close>

definition no_identity_git :: "string list \<Rightarrow> exc + proc" where
  "no_identity_git cmd =
     (if take 2 cmd = [''git'', ''commit'']
      then Inr \<lparr>returncode = 128, stdout = [],
                stderr = ''fatal: unable to auto-detect email address: set user.email and user.name''\<rparr>
      else demo_git cmd)"

definition broken_status_git :: "string list \<Rightarrow> exc + proc" where
  "broken_status_git cmd =
     (if cmd = [''git'', ''status'', ''--porcelain'']
      then Inr \<lparr>returncode = 128, stdout = [], stderr = ''fatal: index file corrupt''\<rparr>
      else Inr \<lparr>returncode = 0, stdout = [], stderr = []\<rparr>)"

text \<open>A file system that refuses every write.\<close>

definition read_only_write :: "string \<Rightarrow> string \<Rightarrow> exc option" where
  "read_only_write p c = Some (Exc OSError ''[Errno 13] Permission denied'')"

text \<open>
  A stack trace whose Java frame names line 11...1, a number of 4301 digits, and what
  the frame patterns find in it.
\<close>

definition long_number :: string where
  "long_number = replicate 4301 (CHR ''1'')"

definition long_trace :: string where
  "long_trace = ''at app.UserController.getUser(UserController.java:'' @ long_number @ '')''"

definition long_trace_matches :: "frame_pattern \<Rightarrow> string \<Rightarrow> (string \<times> string) list" where
  "long_trace_matches pat s =
     (if pat = JavaFrame \<and> s = long_trace then [(''UserController.java'', long_number)] else [])"

section \<open>Notions used in the statements\<close>

subsection \<open>Retrieval\<close>

text \<open>
  The file name \<^verbatim>\<open>find_relevant_files\<close> takes from a stack-frame match, and the two
  discovery orders: the file names of all frame matches, pattern by pattern, and the
  paths the class index gives for the capitalised words, at most two per word.
\<close>

definition frame_file :: "string \<times> string \<Rightarrow> string" where
  "frame_file m = after_last (CHR 0x5C) (after_last (CHR ''/'') (fst m))"

definition frame_files :: "env \<Rightarrow> string \<Rightarrow> string list" where
  "frame_files env s = map frame_file (concat (map (\<lambda>pat. frame_matches env pat s) file_patterns))"

definition class_paths :: "env \<Rightarrow> codebase_provider \<Rightarrow> string \<Rightarrow> string list" where
  "class_paths env cp s =
     concat (map (\<lambda>w. case class_index cp w of None \<Rightarrow> [] | Some ps \<Rightarrow> take 2 ps)
                 (capitalized_words env s))"

text \<open>An entry whose file cannot be read carries the error text as its content.\<close>

definition unreadable_marked :: "env \<Rightarrow> file_info \<Rightarrow> bool" where
  "unreadable_marked env f =
     (case read_text env (path f) of Inl e \<Rightarrow> content f = read_error_text e | Inr t \<Rightarrow> True)"



text \<open>
  The text before a declaration ends with a match of the class pattern that has not
  ended yet: \<^verbatim>\<open>class\<close>, white space and the word characters up to the declaration.
  The name of that match then runs on into the keyword of the declaration.
\<close>

definition keyword_consumed :: "string \<Rightarrow> bool" where
  "keyword_consumed pre =
     (\<exists>before ws w. pre = before @ ''class'' @ ws @ w \<and> ws \<noteq> [] \<and> list_all is_space ws
        \<and> list_all is_word_char w)"

subsection \<open>Replies\<close>

text \<open>
  The code-fence decorations a reply may be wrapped in: an opening fence, with or without
  the \<^verbatim>\<open>json\<close> tag, on a line of its own, and a closing fence.
\<close>

definition fence_openers :: "string list" where
  "fence_openers = [''```json'' @ [CHR 0x0A], ''```'' @ [CHR 0x0A]]"

definition fence_closers :: "string list" where
  "fence_closers = [[CHR 0x0A] @ ''```'', ''```'', [CHR 0x0A] @ ''```'' @ [CHR 0x0A]]"

text \<open>
  The JSON texts, by the grammar of RFC 8259: white space, numbers, strings with their
  escapes, the literals, arrays and objects. The three literals \<^verbatim>\<open>NaN\<close>, \<^verbatim>\<open>Infinity\<close>
  and \<^verbatim>\<open>-Infinity\<close>, which \<^verbatim>\<open>json.loads\<close> accepts beyond the RFC, are values too.
\<close>

definition json_ws :: "string \<Rightarrow> bool" where
  "json_ws w = list_all (\<lambda>c. c \<in> set [CHR '' '', CHR 0x09, CHR 0x0A, CHR 0x0D]) w"

definition json_digits :: "string \<Rightarrow> bool" where
  "json_digits d = (d \<noteq> [] \<and> list_all (\<lambda>c. c \<in> set ''0123456789'') d)"

definition json_int :: "string \<Rightarrow> bool" where
  "json_int d = (json_digits d \<and> (d = ''0'' \<or> hd d \<noteq> CHR ''0''))"

definition json_frac :: "string \<Rightarrow> bool" where
  "json_frac f = (f = [] \<or> (\<exists>d. f = ''.'' @ d \<and> json_digits d))"

definition json_exp :: "string \<Rightarrow> bool" where
  "json_exp e =
     (e = [] \<or> (\<exists>m s d. e = m @ s @ d \<and> m \<in> set [''e'', ''E''] \<and> s \<in> set [[], ''+'', ''-'']
                    \<and> json_digits d))"

definition json_number :: "string \<Rightarrow> bool" where
  "json_number n =
     (\<exists>s i f e. n = s @ i @ f @ e \<and> s \<in> set [[], ''-''] \<and> json_int i \<and> json_frac f \<and> json_exp e)"

inductive json_chars :: "string \<Rightarrow> bool" where
  "json_chars []"
| "json_chars s \<Longrightarrow> c \<noteq> CHR 0x22 \<Longrightarrow> c \<noteq> CHR 0x5C \<Longrightarrow> 32 \<le> (of_char c :: nat)
   \<Longrightarrow> json_chars (c # s)"
| "json_chars s \<Longrightarrow> e \<in> set (CHR 0x22 # CHR 0x5C # ''/bfnrt'') \<Longrightarrow> json_chars (CHR 0x5C # e # s)"
| "json_chars s \<Longrightarrow> list_all (\<lambda>x. x \<in> set ''0123456789abcdefABCDEF'') [a, b, c, d]
   \<Longrightarrow> json_chars (CHR 0x5C # CHR ''u'' # a # b # c # d # s)"

definition json_string :: "string \<Rightarrow> bool" where
  "json_string s = (\<exists>cs. s = CHR 0x22 # cs @ [CHR 0x22] \<and> json_chars cs)"

inductive json_value :: "string \<Rightarrow> bool"
  and json_elements :: "string \<Rightarrow> bool"
  and json_members :: "string \<Rightarrow> bool" where
  "json_value ''true''"
| "json_value ''false''"
| "json_value ''null''"
| "json_value ''NaN''"
| "json_value ''Infinity''"
| "json_value ''-Infinity''"
| "json_number n \<Longrightarrow> json_value n"
| "json_string s \<Longrightarrow> json_value s"
| "json_ws w \<Longrightarrow> json_value (''['' @ w @ '']'')"
| "json_elements es \<Longrightarrow> json_value (''['' @ es @ '']'')"
| "json_ws w \<Longrightarrow> json_value (''{'' @ w @ ''}'')"
| "json_members ms \<Longrightarrow> json_value (''{'' @ ms @ ''}'')"
| "json_ws a \<Longrightarrow> json_value v \<Longrightarrow> json_ws b \<Longrightarrow> json_elements (a @ v @ b)"
| "json_ws a \<Longrightarrow> json_value v \<Longrightarrow> json_ws b \<Longrightarrow> json_elements es
   \<Longrightarrow> json_elements (a @ v @ b @ '','' @ es)"
| "json_ws a \<Longrightarrow> json_string k \<Longrightarrow> json_ws b \<Longrightarrow> json_ws c \<Longrightarrow> json_value v \<Longrightarrow> json_ws d
   \<Longrightarrow> json_members (a @ k @ b @ '':'' @ c @ v @ d)"
| "json_ws a \<Longrightarrow> json_string k \<Longrightarrow> json_ws b \<Longrightarrow> json_ws c \<Longrightarrow> json_value v \<Longrightarrow> json_ws d
   \<Longrightarrow> json_members ms \<Longrightarrow> json_members (a @ k @ b @ '':'' @ c @ v @ d @ '','' @ ms)"

definition json_text :: "string \<Rightarrow> bool" where
  "json_text J = (\<exists>a v b. J = a @ v @ b \<and> json_ws a \<and> json_value v \<and> json_ws b)"

text \<open>
  What the cleaning of a reply depends on is the end of the text: white space apart, a
  JSON text ends with the end of an object, an array, a string, a number or a literal.
\<close>

definition json_last_chars :: string where
  "json_last_chars = CHR 0x22 # ''}]0123456789elNy''"

definition ends_like_json :: "string \<Rightarrow> bool" where
  "ends_like_json J =
     (case dropWhile is_space (rev J) of [] \<Rightarrow> False | z # before \<Rightarrow> z \<in> set json_last_chars)"

definition is_list :: "json \<Rightarrow> bool" where
  "is_list v = (case v of JArr xs \<Rightarrow> True | _ \<Rightarrow> False)"

text \<open>The four replacements of \<open>clean_response\<close>, before the \<^verbatim>\<open>strip\<close>.\<close>

definition unfence :: "string \<Rightarrow> string" where
  "unfence s = remove_all ''```''
       (remove_all (''```'' @ [CHR 0x0A])
         (remove_all ''```json''
           (remove_all (''```json'' @ [CHR 0x0A]) s)))"

subsection \<open>The observer\<close>

text \<open>
  What the callback loop of \<^verbatim>\<open>process_logs\<close> does for a dict of fixed files: the calls
  it makes when none raises, one for each fixed file whose base name is in the file
  index; the exception the call for one file raises, if any; and whether every call
  returns.
\<close>

definition callback_events :: "env \<Rightarrow> codebase_provider \<Rightarrow> (string \<times> string) list \<Rightarrow> event list" where
  "callback_events env cp fixed_files =
     concat (map (\<lambda>item. case file_index cp (basename (fst item)) of
                           None \<Rightarrow> []
                         | Some original_path \<Rightarrow>
                             [Callback (basename (fst item)) (get_file_content env original_path) (snd item)])
                 fixed_files)"

definition callback_raises :: "env \<Rightarrow> codebase_provider \<Rightarrow> callback \<Rightarrow> string \<times> string \<Rightarrow> exc option" where
  "callback_raises env cp cb item =
     (case file_index cp (basename (fst item)) of
        None \<Rightarrow> None
      | Some original_path \<Rightarrow> cb (basename (fst item)) (get_file_content env original_path) (snd item))"

definition callbacks_pass :: "env \<Rightarrow> codebase_provider \<Rightarrow> callback \<Rightarrow> (string \<times> string) list \<Rightarrow> bool" where
  "callbacks_pass env cp cb fixed_files = list_all (\<lambda>item. callback_raises env cp cb item = None) fixed_files"

subsection \<open>Version control\<close>

text \<open>
  The outcome of a git command in an environment: it exits with status zero, it exits
  with a non-zero status, or it runs at all (\<^verbatim>\<open>subprocess.run\<close> returns). The output of
  \<^verbatim>\<open>git status --porcelain\<close> is blank or not.
\<close>

definition git_ok :: "env \<Rightarrow> string list \<Rightarrow> bool" where
  "git_ok env cmd = (case git env cmd of Inl e \<Rightarrow> False | Inr p \<Rightarrow> returncode p = 0)"

definition git_failed :: "env \<Rightarrow> string list \<Rightarrow> bool" where
  "git_failed env cmd = (case git env cmd of Inl e \<Rightarrow> False | Inr p \<Rightarrow> returncode p \<noteq> 0)"

definition git_ran :: "env \<Rightarrow> string list \<Rightarrow> bool" where
  "git_ran env cmd = (case git env cmd of Inl e \<Rightarrow> False | Inr p \<Rightarrow> True)"

definition status_blank :: "env \<Rightarrow> bool" where
  "status_blank env =
     (case git env [''git'', ''status'', ''--porcelain''] of
        Inl e \<Rightarrow> False | Inr p \<Rightarrow> strip (stdout p) = [])"

definition status_changed :: "env \<Rightarrow> bool" where
  "status_changed env =
     (case git env [''git'', ''status'', ''--porcelain''] of
        Inl e \<Rightarrow> False | Inr p \<Rightarrow> strip (stdout p) \<noteq> [])"

text \<open>
  Writing one fixed file raises when making its directory or writing it does; the events
  of the write loop when no write raises.
\<close>

definition write_raises :: "env \<Rightarrow> string \<Rightarrow> codebase_provider option \<Rightarrow> string \<times> string \<Rightarrow> exc option" where
  "write_raises env repo_path cp item =
     (case makedirs env (dirname (target_path repo_path cp (fst item))) of
        Some e \<Rightarrow> Some e
      | None \<Rightarrow> write_text env (target_path repo_path cp (fst item)) (snd item))"

definition writes_ok :: "env \<Rightarrow> string \<Rightarrow> codebase_provider option \<Rightarrow> (string \<times> string) list \<Rightarrow> bool" where
  "writes_ok env repo_path cp fixed_files =
     list_all (\<lambda>item. write_raises env repo_path cp item = None) fixed_files"

definition write_events :: "string \<Rightarrow> codebase_provider option \<Rightarrow> (string \<times> string) list \<Rightarrow> event list" where
  "write_events repo_path cp fixed_files =
     concat (map (\<lambda>item. [MakeDirs (dirname (target_path repo_path cp (fst item))),
                           WriteFile (target_path repo_path cp (fst item)) (snd item)])
                 fixed_files)"

text \<open>The result of the handler of \<^verbatim>\<open>create_fix_branch\<close>.\<close>

definition failed_on :: "string \<Rightarrow> git_operation" where
  "failed_on branch = \<lparr>branch_name = branch, commit_message = [], files_changed = [], success = False\<rparr>"

section \<open>Lemmas: retrieval\<close>

lemma for_each_append:
  "for_each f (xs @ ys) s = (case for_each f xs s of Inl e \<Rightarrow> Inl e | Inr s' \<Rightarrow> for_each f ys s')"
  by (induction xs arbitrary: s) (auto split: sum.splits)

lemma for_each_concat:
  "for_each (\<lambda>x. for_each g (h x)) xs s = for_each g (concat (map h xs)) s"
  by (induction xs arbitrary: s) (auto simp: for_each_append split: sum.splits)

lemma read_file_excerpt_Inr: "\<exists>s. read_file_excerpt env p ln c = Inr s"
  by (simp add: read_file_excerpt_def split: sum.splits)

lemma read_file_excerpt_unreadable:
  "read_text env p = Inl e \<Longrightarrow> read_file_excerpt env p ln c = Inr (read_error_text e)"
  by (simp add: read_file_excerpt_def read_file_excerpt_body_def)

lemma add_frame_match_step:
  assumes "add_frame_match env cp m st = Inr st'"
  shows "\<exists>new. st' = (fst st @ new, snd st @ map path new)
     \<and> (new = [] \<or> (\<exists>f. new = [f] \<and> relevance f = ''stack_trace'' \<and> filename f = frame_file m
            \<and> path f \<notin> set (snd st) \<and> unreadable_marked env f))"
proof (cases "file_index cp (frame_file m)")
  case None
  with assms have "st' = (fst st @ [], snd st @ map path [])"
    by (simp add: add_frame_match_def frame_file_def)
  then show ?thesis by blast
next
  case (Some fp)
  show ?thesis
  proof (cases "fp \<in> set (snd st)")
    case True
    with Some assms have "st' = (fst st @ [], snd st @ map path [])"
      by (simp add: add_frame_match_def frame_file_def)
    then show ?thesis by blast
  next
    case False
    from assms Some False obtain ln where ln: "line_argument env (snd m) = Inr ln"
      by (cases "line_argument env (snd m)") (simp_all add: add_frame_match_def frame_file_def Let_def)
    obtain ex_t where ex: "read_file_excerpt env fp ln 10 = Inr ex_t"
      using read_file_excerpt_Inr by blast
    let ?f = "\<lparr>path = fp, filename = frame_file m, line = snd m, content = ex_t,
               relevance = ''stack_trace''\<rparr>"
    have "st' = (fst st @ [?f], snd st @ map path [?f])"
      using assms Some False ln ex by (simp add: add_frame_match_def frame_file_def Let_def)
    moreover have "unreadable_marked env ?f"
      using ex read_file_excerpt_unreadable[of env fp _ ln 10]
      by (auto simp: unreadable_marked_def split: sum.splits)
    ultimately show ?thesis using False by auto
  qed
qed

lemma add_frame_match_returns:
  assumes "line_argument env (snd m) = Inr ln"
  shows "\<exists>st'. add_frame_match env cp m st = Inr st'"
proof -
  have "\<And>fp. \<exists>t. read_file_excerpt env fp ln 10 = Inr t"
    using read_file_excerpt_Inr by blast
  then show ?thesis
    using assms
    by (auto simp: add_frame_match_def Let_def split: option.splits sum.splits)
       (metis Inl_Inr_False)
qed

lemma add_class_path_step:
  "\<exists>new. add_class_path env p st = Inr (fst st @ new, snd st @ map path new)
     \<and> (new = [] \<or> (\<exists>f. new = [f] \<and> relevance f = ''class_match'' \<and> path f = p
            \<and> path f \<notin> set (snd st) \<and> unreadable_marked env f))"
proof (cases "p \<in> set (snd st)")
  case True
  then have "add_class_path env p st = Inr (fst st @ [], snd st @ map path [])"
    by (simp add: add_class_path_def)
  then show ?thesis by blast
next
  case False
  obtain ex_t where ex: "read_file_excerpt env p None 10 = Inr ex_t"
    using read_file_excerpt_Inr by blast
  let ?f = "\<lparr>path = p, filename = after_last (CHR ''/'') p, line = ''?'', content = ex_t,
             relevance = ''class_match''\<rparr>"
  have "add_class_path env p st = Inr (fst st @ [?f], snd st @ map path [?f])"
    using False ex by (simp add: add_class_path_def)
  moreover have "unreadable_marked env ?f"
    using ex read_file_excerpt_unreadable[of env p _ None 10]
    by (auto simp: unreadable_marked_def split: sum.splits)
  ultimately show ?thesis using False by auto
qed

lemma frames_loop:
  "distinct (snd st) \<Longrightarrow> for_each (add_frame_match env cp) ms st = Inr st' \<Longrightarrow>
   \<exists>new. st' = (fst st @ new, snd st @ map path new)
     \<and> distinct (snd st @ map path new)
     \<and> (\<forall>f\<in>set new. relevance f = ''stack_trace'' \<and> unreadable_marked env f)
     \<and> subseq (map filename new) (map frame_file ms)"
proof (induction ms arbitrary: st)
  case Nil
  then have "st' = (fst st @ [], snd st @ map path [])" by simp
  with Nil show ?case by (intro exI[of _ "[]"]) simp
next
  case (Cons m ms)
  from Cons.prems(2) obtain st1 where s1: "add_frame_match env cp m st = Inr st1"
    and rest: "for_each (add_frame_match env cp) ms st1 = Inr st'"
    by (cases "add_frame_match env cp m st") simp_all
  obtain n1 where n1: "st1 = (fst st @ n1, snd st @ map path n1)"
    and n1': "n1 = [] \<or> (\<exists>f. n1 = [f] \<and> relevance f = ''stack_trace'' \<and> filename f = frame_file m
            \<and> path f \<notin> set (snd st) \<and> unreadable_marked env f)"
    using add_frame_match_step[OF s1] by blast
  have d: "distinct (snd st1)" using Cons.prems(1) n1 n1' by auto
  from Cons.IH[OF d rest] obtain n2 where
    n2: "st' = (fst st1 @ n2, snd st1 @ map path n2)"
    and d2: "distinct (snd st1 @ map path n2)"
    and r2: "\<forall>f\<in>set n2. relevance f = ''stack_trace'' \<and> unreadable_marked env f"
    and s2: "subseq (map filename n2) (map frame_file ms)" by blast
  have "st' = (fst st @ (n1 @ n2), snd st @ map path (n1 @ n2))"
    using n1 n2 by simp
  moreover have "distinct (snd st @ map path (n1 @ n2))" using d2 n1 by simp
  moreover have "\<forall>f\<in>set (n1 @ n2). relevance f = ''stack_trace'' \<and> unreadable_marked env f"
    using n1' r2 by auto
  moreover have "subseq (map filename (n1 @ n2)) (map frame_file (m # ms))"
    using n1' s2 by auto
  ultimately show ?case by blast
qed

lemma for_each_returns:
  "(\<And>x s. x \<in> set xs \<Longrightarrow> \<exists>s'. f x s = Inr s') \<Longrightarrow> \<exists>s'. for_each f xs s = Inr s'"
proof (induction xs arbitrary: s)
  case Nil
  show ?case by simp
next
  case (Cons x xs)
  obtain s1 where s1: "f x s = Inr s1" using Cons.prems[of x s] by auto
  obtain s2 where "for_each f xs s1 = Inr s2" using Cons.IH[of s1] Cons.prems by auto
  with s1 show ?case by simp
qed

lemma classes_loop:
  "distinct (snd st) \<Longrightarrow>
   \<exists>new. for_each (add_class_path env) ps st = Inr (fst st @ new, snd st @ map path new)
     \<and> distinct (snd st @ map path new)
     \<and> (\<forall>f\<in>set new. relevance f = ''class_match'' \<and> unreadable_marked env f)
     \<and> subseq (map path new) ps"
proof (induction ps arbitrary: st)
  case Nil
  have "for_each (add_class_path env) [] st = Inr (fst st @ [], snd st @ map path [])" by simp
  with Nil show ?case by (intro exI[of _ "[]"]) simp
next
  case (Cons p ps)
  obtain n1 where n1: "add_class_path env p st = Inr (fst st @ n1, snd st @ map path n1)"
    and n1': "n1 = [] \<or> (\<exists>f. n1 = [f] \<and> relevance f = ''class_match'' \<and> path f = p
            \<and> path f \<notin> set (snd st) \<and> unreadable_marked env f)"
    using add_class_path_step by blast
  let ?st = "(fst st @ n1, snd st @ map path n1)"
  have d: "distinct (snd ?st)" using Cons.prems n1' by auto
  from Cons.IH[OF d] obtain n2 where
    n2: "for_each (add_class_path env) ps ?st = Inr (fst ?st @ n2, snd ?st @ map path n2)"
    and d2: "distinct (snd ?st @ map path n2)"
    and r2: "\<forall>f\<in>set n2. relevance f = ''class_match'' \<and> unreadable_marked env f"
    and s2: "subseq (map path n2) ps" by blast
  have "for_each (add_class_path env) (p # ps) st
        = Inr (fst st @ (n1 @ n2), snd st @ map path (n1 @ n2))"
    using n1 n2 by simp
  moreover have "distinct (snd st @ map path (n1 @ n2))" using d2 by simp
  moreover have "\<forall>f\<in>set (n1 @ n2). relevance f = ''class_match'' \<and> unreadable_marked env f"
    using n1' r2 by auto
  moreover have "subseq (map path (n1 @ n2)) (p # ps)"
    using n1' s2 by auto
  ultimately show ?case by blast
qed

lemma add_word_loop:
  "for_each (add_word env cp) ws st = for_each (add_class_path env) 
     (concat (map (\<lambda>w. case class_index cp w of None \<Rightarrow> [] | Some ps \<Rightarrow> take 2 ps) ws)) st"
  by (induction ws arbitrary: st) (auto simp: add_word_def for_each_append split: option.splits sum.splits)

lemma find_relevant_files_shape:
  assumes "find_relevant_files env cp s msg n = Inr r"
  shows "\<exists>a b. r = py_take n (a @ b)
     \<and> distinct (map path (a @ b))
     \<and> (\<forall>f\<in>set a. relevance f = ''stack_trace'' \<and> unreadable_marked env f)
     \<and> (\<forall>f\<in>set b. relevance f = ''class_match'' \<and> unreadable_marked env f)
     \<and> subseq (map filename a) (frame_files env s)
     \<and> subseq (map path b) (class_paths env cp msg)"
proof -
  let ?ms = "concat (map (\<lambda>pat. frame_matches env pat s) file_patterns)"
  let ?ps = "concat (map (\<lambda>w. case class_index cp w of None \<Rightarrow> [] | Some ps \<Rightarrow> take 2 ps)
                 (capitalized_words env msg))"
  from assms obtain st1 where f1: "for_each (add_frame_match env cp) ?ms ([], []) = Inr st1"
    by (cases "for_each (add_frame_match env cp) ?ms ([], [])")
       (simp_all add: find_relevant_files_def for_each_concat)
  obtain a where a: "st1 = (a, map path a)"
    and da: "distinct (map path a)"
    and ra: "\<forall>f\<in>set a. relevance f = ''stack_trace'' \<and> unreadable_marked env f"
    and sa: "subseq (map filename a) (map frame_file ?ms)"
    using frames_loop[of "([], [])" env cp ?ms st1] f1 by auto
  obtain b where b: "for_each (add_class_path env) ?ps (a, map path a) = Inr (a @ b, map path a @ map path b)"
    and db: "distinct (map path a @ map path b)"
    and rb: "\<forall>f\<in>set b. relevance f = ''class_match'' \<and> unreadable_marked env f"
    and sb: "subseq (map path b) ?ps"
    using classes_loop[of "(a, map path a)" env ?ps] da by auto
  have "find_relevant_files env cp s msg n = Inr (py_take n (a @ b))"
    using f1 a b by (simp add: find_relevant_files_def for_each_concat add_word_loop)
  with assms have "r = py_take n (a @ b)" by simp
  then show ?thesis
    using db ra rb sa sb unfolding frame_files_def class_paths_def by (intro exI[of _ a] exI[of _ b]) simp
qed

lemma py_take_is_take: "\<exists>k. py_take n xs = take k xs \<and> (0 \<le> n \<longrightarrow> k = nat n)"
  by (auto simp: py_take_def)

lemma set_py_take: "set (py_take n xs) \<subseteq> set xs"
  by (auto simp: py_take_def dest: in_set_takeD)

lemma find_relevant_files_returns:
  assumes "\<And>pat m. pat \<in> set file_patterns \<Longrightarrow> m \<in> set (frame_matches env pat s)
             \<Longrightarrow> \<exists>ln. line_argument env (snd m) = Inr ln"
  shows "\<exists>r. find_relevant_files env cp s msg n = Inr r \<and> (\<forall>f\<in>set r. unreadable_marked env f)"
proof -
  let ?ms = "concat (map (\<lambda>pat. frame_matches env pat s) file_patterns)"
  let ?ps = "concat (map (\<lambda>w. case class_index cp w of None \<Rightarrow> [] | Some ps \<Rightarrow> take 2 ps)
                 (capitalized_words env msg))"
  have "\<And>m st. m \<in> set ?ms \<Longrightarrow> \<exists>st'. add_frame_match env cp m st = Inr st'"
    using assms add_frame_match_returns by fastforce
  then obtain st1 where f1: "for_each (add_frame_match env cp) ?ms ([], []) = Inr st1"
    using for_each_returns[of ?ms "add_frame_match env cp" "([], [])"] by blast
  obtain a where a: "st1 = (a, map path a)" and da: "distinct (map path a)"
    using frames_loop[of "([], [])" env cp ?ms st1] f1 by auto
  obtain b where b: "for_each (add_class_path env) ?ps (a, map path a) = Inr (a @ b, map path a @ map path b)"
    using classes_loop[of "(a, map path a)" env ?ps] da by auto
  have run: "find_relevant_files env cp s msg n = Inr (py_take n (a @ b))"
    using f1 a b by (simp add: find_relevant_files_def for_each_concat add_word_loop)
  from find_relevant_files_shape[OF run] obtain a' b' where
    "py_take n (a @ b) = py_take n (a' @ b')"
    "\<forall>f\<in>set a'. relevance f = ''stack_trace'' \<and> unreadable_marked env f"
    "\<forall>f\<in>set b'. relevance f = ''class_match'' \<and> unreadable_marked env f"
    by blast
  then have "\<forall>f\<in>set (py_take n (a @ b)). unreadable_marked env f"
    using set_py_take[of n "a' @ b'"] by auto
  with run show ?thesis by blast
qed

lemma demo_line_45: "line_argument demo_env ''45'' = Inr (Some 45)"
  by (simp add: line_argument_def isdigit_def is_digit_def py_int_def decimal_value_def demo_env_def)

lemma demo_find:
  "find_relevant_files demo_env demo_provider demo_trace ''UserService returned null'' n =
     Inr (py_take n
       [\<lparr>path = ''/repo/src/UserController.java'', filename = ''UserController.java'', line = ''45'',
         content = ''... (first 20 lines) ...'' @ [CHR 0x0A] @ ''public class UserController {'' @ [CHR 0x0A] @ ''}'' @ [CHR 0x0A],
         relevance = ''stack_trace''\<rparr>,
        \<lparr>path = ''/repo/src/UserService.java'', filename = ''UserService.java'', line = ''?'',
         content = ''[Error reading file: [Errno 13] Permission denied]'',
         relevance = ''class_match''\<rparr>])"
  by (simp add: find_relevant_files_def file_patterns_def demo_env_def demo_provider_def demo_trace_def
        add_frame_match_def add_word_def add_class_path_def read_file_excerpt_def read_file_excerpt_body_def
        read_error_text_def after_last_def line_argument_def isdigit_def is_digit_def py_int_def
        decimal_value_def Let_def py_slice_def)

section \<open>Lemmas: the index build\<close>

lemma word_char_not_space: "is_word_char c \<Longrightarrow> \<not> is_space c"
  by (auto simp: is_word_char_def is_space_def Let_def)

lemma match_decl_class:
  assumes ws: "ws \<noteq> []" "list_all is_space ws"
    and c: "c \<noteq> []" "list_all is_word_char c"
    and post: "post = [] \<or> \<not> is_word_char (hd post)"
  shows "match_decl [''class''] (''class'' @ ws @ c @ post) = Some (c, 5 + length ws + length c)"
proof -
  obtain c0 cs where c0: "c = c0 # cs" using c(1) by (cases c) auto
  have nsp: "\<not> is_space c0" using c(2) c0 word_char_not_space by simp
  have tw: "takeWhile is_space (ws @ c @ post) = ws"
    using ws(2) nsp c0 by (simp add: takeWhile_append2 list_all_iff)
  have dw: "dropWhile is_space (ws @ c @ post) = c @ post"
    using ws(2) nsp c0 by (simp add: dropWhile_append2 list_all_iff)
  have twc: "takeWhile is_word_char (c @ post) = c"
    using c(2) post by (cases post) (simp_all add: takeWhile_append2 list_all_iff)
  have dwc: "dropWhile is_word_char (c @ post) = post"
    using c(2) post by (cases post) (simp_all add: dropWhile_append2 list_all_iff)
  have mk: "match_keywords [''class''] (''class'' @ ws @ c @ post) = Some (c @ post)"
    using tw dw ws(1) by simp
  show ?thesis
    unfolding match_decl_def mk using twc dwc c(1) by simp
qed

lemma keyword_consumed_suffix: "keyword_consumed p \<Longrightarrow> keyword_consumed (q @ p)"
proof -
  assume "keyword_consumed p"
  then obtain before ws w where "p = before @ ''class'' @ ws @ w" "ws \<noteq> []" "list_all is_space ws"
    "list_all is_word_char w" unfolding keyword_consumed_def by blast
  then have "q @ p = (q @ before) @ ''class'' @ ws @ w" by simp
  with \<open>ws \<noteq> []\<close> \<open>list_all is_space ws\<close> \<open>list_all is_word_char w\<close>
  show ?thesis unfolding keyword_consumed_def by blast
qed

lemma takeWhile_stops: "\<not> P y \<Longrightarrow> takeWhile P (xs @ y # ys) = takeWhile P xs"
  by (induction xs) auto

lemma dropWhile_stops: "\<not> P y \<Longrightarrow> dropWhile P (xs @ y # ys) = dropWhile P xs @ y # ys"
  by (induction xs) auto

lemma overlap_repeats_head:
  assumes "prefix k (p @ k @ rest)" "length p < length k"
  shows "k ! length p = k ! 0"
proof -
  from assms(1) obtain z where z: "p @ k @ rest = k @ z" by (auto simp: prefix_def)
  have k: "k \<noteq> []" using assms(2) by auto
  have "(p @ k @ rest) ! length p = (k @ rest) ! 0" by (simp add: nth_append)
  also have "\<dots> = k ! 0" using k by (simp add: nth_append)
  finally have "(k @ z) ! length p = k ! 0" using z by simp
  then show ?thesis using assms(2) by (simp add: nth_append)
qed

lemma class_not_shifted:
  assumes "prefix ''class'' (p @ ''class'' @ rest)"
  shows "p = [] \<or> 5 \<le> length p"
proof (rule ccontr)
  assume "\<not> (p = [] \<or> 5 \<le> length p)"
  then have k: "0 < length p" "length p < 5" by auto
  then have "length p < length ''class''" by simp
  from overlap_repeats_head[OF assms this] have "''class'' ! length p = CHR ''c''" by simp
  with k show False
    by (auto simp: less_Suc_eq numeral_eq_Suc nth_Cons')
qed

lemma match_decl_class_parts:
  "match_decl [''class''] s = Some (name, n) \<Longrightarrow>
     prefix ''class'' s \<and> takeWhile is_space (drop (length ''class'') s) \<noteq> []
     \<and> n = length s
           - length (dropWhile is_word_char (dropWhile is_space (drop (length ''class'') s)))"
  by (auto simp: match_decl_def split: if_splits)

lemma match_reaching_declaration:
  assumes m: "match_decl [''class''] (p @ ''class'' @ rest) = Some (name, n)"
    and p: "p \<noteq> []" and n: "length p < n"
  shows "keyword_consumed p"
proof -
  define D where "D = ''class'' @ rest"
  obtain D' where D': "D = CHR ''c'' # D'" by (simp add: D_def)
  have c: "\<not> is_space (CHR ''c'')"
    by (simp add: is_space_def)
  from match_decl_class_parts[OF m]
  have pre: "prefix ''class'' (p @ D)"
    and sp: "takeWhile is_space (drop (length ''class'') (p @ D)) \<noteq> []"
    and nn: "n = length (p @ D)
               - length (dropWhile is_word_char (dropWhile is_space (drop (length ''class'') (p @ D))))"
    unfolding D_def by blast+
  from class_not_shifted[OF pre[unfolded D_def]] p have l: "5 \<le> length p" by blast
  from pre obtain z where "p @ D = ''class'' @ z" by (auto simp: prefix_def)
  then have "take 5 (p @ D) = ''class''" by simp
  then have "take 5 p = ''class''" using l by simp
  then obtain p1 where p1: "p = ''class'' @ p1" by (metis append_take_drop_id)
  have d5: "drop (length ''class'') (p @ D) = p1 @ CHR ''c'' # D'" by (simp add: p1 D')
  let ?ws = "takeWhile is_space p1" and ?p2 = "dropWhile is_space p1"
  have ws: "?ws \<noteq> []" using sp c unfolding d5 by (simp add: takeWhile_stops)
  have r: "dropWhile is_space (drop (length ''class'') (p @ D)) = ?p2 @ D"
    unfolding d5 using c by (simp add: dropWhile_stops D')
  have w: "list_all is_word_char ?p2"
  proof (rule ccontr)
    assume "\<not> list_all is_word_char ?p2"
    then have "\<exists>x\<in>set ?p2. \<not> is_word_char x" by (simp add: list_all_iff)
    then have "dropWhile is_word_char (?p2 @ D) = dropWhile is_word_char ?p2 @ D"
      by (metis dropWhile_append1)
    then have "length D \<le> length (dropWhile is_word_char (?p2 @ D))" by simp
    then have "n \<le> length p" using nn unfolding r by simp
    with n show False by simp
  qed
  have "p = [] @ ''class'' @ ?ws @ ?p2" by (simp add: p1)
  moreover have "list_all is_space ?ws" by (simp add: list_all_iff) (meson set_takeWhileD)
  ultimately show ?thesis unfolding keyword_consumed_def using ws w by blast
qed

lemma re_findall_decl_match:
  "s \<noteq> [] \<Longrightarrow> match_decl kws s = Some (name, n)
   \<Longrightarrow> re_findall_decl kws s = name # re_findall_decl kws (drop (max 1 n) s)"
  by (subst re_findall_decl.simps) simp

lemma re_findall_decl_no_match:
  "s \<noteq> [] \<Longrightarrow> match_decl kws s = None \<Longrightarrow> re_findall_decl kws s = re_findall_decl kws (tl s)"
  by (subst re_findall_decl.simps) simp

lemma re_findall_decl_scan:
  assumes ws: "ws \<noteq> []" "list_all is_space ws" and c: "c \<noteq> []" "list_all is_word_char c"
    and post: "post = [] \<or> \<not> is_word_char (hd post)"
  shows "\<not> keyword_consumed p \<Longrightarrow> c \<in> set (re_findall_decl [''class''] (p @ ''class'' @ ws @ c @ post))"
proof (induction "length p" arbitrary: p rule: less_induct)
  case less
  define D where "D = ''class'' @ ws @ c @ post"
  have D: "D \<noteq> []" by (simp add: D_def)
  have goal: "c \<in> set (re_findall_decl [''class''] (p @ D))"
  proof (cases p)
    case Nil
    have "match_decl [''class''] D = Some (c, 5 + length ws + length c)"
      unfolding D_def by (rule match_decl_class[OF ws c post])
    from re_findall_decl_match[OF D this] Nil show ?thesis by simp
  next
    case (Cons x p')
    then have ne: "p @ D \<noteq> []" by simp
    have tl: "tl (p @ D) = p' @ D" using Cons by simp
    show ?thesis
    proof (cases "match_decl [''class''] (p @ D)")
      case None
      have "\<not> keyword_consumed p'"
        using less.prems keyword_consumed_suffix[of p' "[x]"] Cons by auto
      moreover have "length p' < length p" using Cons by simp
      ultimately have "c \<in> set (re_findall_decl [''class''] (p' @ D))"
        using less.hyps[of p'] unfolding D_def by blast
      then show ?thesis
        unfolding re_findall_decl_no_match[OF ne None] tl .
    next
      case (Some r)
      obtain name n where r: "r = (name, n)" by (cases r)
      have m: "match_decl [''class''] (p @ D) = Some (name, n)" using Some r by simp
      have n: "n \<le> length p"
      proof (rule ccontr)
        assume "\<not> n \<le> length p"
        then have "length p < n" by simp
        from match_reaching_declaration[OF m[unfolded D_def] _ this] Cons less.prems
        show False by simp
      qed
      let ?k = "max 1 n"
      have k: "?k \<le> length p" "0 < ?k" using n Cons by auto
      have dk: "drop ?k (p @ D) = drop ?k p @ D" using k by simp
      have "\<not> keyword_consumed (drop ?k p)"
        using less.prems keyword_consumed_suffix[of "drop ?k p" "take ?k p"] by auto
      moreover have "length (drop ?k p) < length p" using k Cons by simp
      ultimately have "c \<in> set (re_findall_decl [''class''] (drop ?k p @ D))"
        using less.hyps[of "drop ?k p"] unfolding D_def by blast
      then show ?thesis
        unfolding re_findall_decl_match[OF ne m] dk by simp
    qed
  qed
  then show ?case unfolding D_def .
qed

lemma re_findall_decl_finds_declaration:
  assumes "ws \<noteq> []" "list_all is_space ws" "c \<noteq> []" "list_all is_word_char c"
    and "post = [] \<or> \<not> is_word_char (hd post)"
    and "\<not> keyword_consumed pre"
  shows "c \<in> set (re_findall_decl [''class''] (pre @ ''class'' @ ws @ c @ post))"
  using re_findall_decl_scan[OF assms(1-5) assms(6)] .

lemma consumed_keyword_not_found:
  "''Foo'' \<notin> set (re_findall_decl [''class''] ''class class Foo'')"
  by (simp add: re_findall_decl.simps match_decl_def is_space_def is_word_char_def)














section \<open>Lemmas: cleaning a reply\<close>

lemma remove_all_split:
  "z \<notin> set old \<Longrightarrow> remove_all old (u @ z # v) = remove_all old u @ z # remove_all old v"
proof (induction old u rule: remove_all.induct)
  case (1 old)
  then have "\<not> (old \<noteq> [] \<and> prefix old (z # v))" by (cases old) auto
  then show ?case by auto
next
  case (2 old c cs)
  show ?case
  proof (cases "old \<noteq> [] \<and> prefix old (c # cs)")
    case True
    then have p: "prefix old ((c # cs) @ z # v)" by (metis prefix_prefix)
    have len: "length old - length (c # cs) = 0"
      using True prefix_length_le[of old "c # cs"] by simp
    have d: "drop (length old) ((c # cs) @ z # v) = drop (length old) (c # cs) @ z # v"
      by (simp only: drop_append len drop_0)
    show ?thesis using True p d "2.IH"(1)[OF True "2.prems"] by simp
  next
    case False
    have "\<not> (old \<noteq> [] \<and> prefix old ((c # cs) @ z # v))"
    proof
      assume a: "old \<noteq> [] \<and> prefix old ((c # cs) @ z # v)"
      then have "prefix old (c # cs) \<or> prefix ((c # cs) @ [z]) old"
        by (metis append.assoc append_Cons append_Nil prefix_append prefix_order.dual_order.refl
            prefix_same_cases prefix_snoc)
      with False a have "prefix ((c # cs) @ [z]) old" by blast
      then have "z \<in> set old" by (auto simp: prefix_def)
      with "2.prems" show False by blast
    qed
    then show ?thesis using False "2.IH"(2)[OF False "2.prems"] by auto
  qed
qed

lemma remove_all_skip:
  "old \<noteq> [] \<Longrightarrow> hd old \<notin> set r \<Longrightarrow> remove_all old (r @ t) = r @ remove_all old t"
proof (induction r)
  case Nil
  then show ?case by simp
next
  case (Cons c r)
  then have "\<not> prefix old (c # r @ t)" by (cases old) auto
  with Cons show ?case by simp
qed

lemma dropWhile_past:
  "\<not> P z \<Longrightarrow> dropWhile P (A @ z # t) = dropWhile P (A @ [z]) @ t"
  by (induction A) auto

lemma dropWhile_keeps_last:
  "\<not> P z \<Longrightarrow> \<exists>D. dropWhile P (A @ [z]) = D @ [z]"
  by (induction A) auto

lemma strip_trailing:
  assumes "\<not> is_space z" "list_all is_space t"
  shows "strip (A @ z # t) = strip (A @ [z])"
proof -
  obtain D where D: "dropWhile is_space (A @ [z]) = D @ [z]"
    using dropWhile_keeps_last[of is_space z A] assms(1) by blast
  have "dropWhile is_space (A @ z # t) = D @ z # t"
    using dropWhile_past[of is_space z A t] assms(1) D by simp
  then have "strip (A @ z # t) = rev (dropWhile is_space (rev t @ z # rev D))"
    by (simp add: strip_def)
  also have "\<dots> = D @ [z]"
  proof -
    have "dropWhile is_space (rev t @ z # rev D) = dropWhile is_space (z # rev D)"
      using assms(2) by (intro dropWhile_append2) (simp add: list_all_iff)
    then show ?thesis using assms(1) by simp
  qed
  also have "\<dots> = strip (A @ [z])"
    using D assms(1) by (simp add: strip_def)
  finally show ?thesis .
qed

lemma clean_response_unfence: "clean_response s = strip (unfence s)"
  by (simp add: clean_response_def unfence_def)

lemma json_last_char_facts:
  assumes "z \<in> set json_last_chars"
  shows "\<not> is_space z" "z \<notin> set (''```json'' @ [CHR 0x0A])" "z \<notin> set ''```json''"
    "z \<notin> set (''```'' @ [CHR 0x0A])" "z \<notin> set ''```''"
  using assms by (auto simp: json_last_chars_def is_space_def)

lemma unfence_split:
  assumes "z \<in> set json_last_chars"
  shows "unfence (u @ z # v) = unfence u @ z # unfence v"
  unfolding unfence_def
  by (simp only: remove_all_split[OF json_last_char_facts(2)[OF assms]]
        remove_all_split[OF json_last_char_facts(3)[OF assms]]
        remove_all_split[OF json_last_char_facts(4)[OF assms]]
        remove_all_split[OF json_last_char_facts(5)[OF assms]])

lemma unfence_opener:
  assumes "opener \<in> set fence_openers"
  shows "unfence (opener @ X) = unfence X"
  using assms by (auto simp: fence_openers_def unfence_def)

lemma space_not_backtick: "list_all is_space r \<Longrightarrow> CHR 0x60 \<notin> set r"
  by (auto simp: list_all_iff is_space_def)

lemma unfence_blank:
  assumes "list_all is_space r"
  shows "unfence (r @ t) = r @ unfence t"
proof -
  have b: "CHR 0x60 \<notin> set r" using assms by (rule space_not_backtick)
  have 1: "remove_all (''```json'' @ [CHR 0x0A]) (r @ s) = r @ remove_all (''```json'' @ [CHR 0x0A]) s" for s
    using b by (intro remove_all_skip) simp_all
  have 2: "remove_all ''```json'' (r @ s) = r @ remove_all ''```json'' s" for s
    using b by (intro remove_all_skip) simp_all
  have 3: "remove_all (''```'' @ [CHR 0x0A]) (r @ s) = r @ remove_all (''```'' @ [CHR 0x0A]) s" for s
    using b by (intro remove_all_skip) simp_all
  have 4: "remove_all ''```'' (r @ s) = r @ remove_all ''```'' s" for s
    using b by (intro remove_all_skip) simp_all
  show ?thesis unfolding unfence_def by (simp only: 1 2 3 4)
qed

lemma unfence_closer:
  assumes "closer \<in> set fence_closers"
  shows "list_all is_space (unfence closer)"
  using assms by (auto simp: fence_closers_def unfence_def is_space_def)

lemma ends_like_json_split:
  assumes "ends_like_json J"
  obtains X z r where "J = X @ z # r" "list_all is_space r" "z \<in> set json_last_chars"
proof -
  from assms obtain z before where d: "dropWhile is_space (rev J) = z # before"
    and z: "z \<in> set json_last_chars"
    by (auto simp: ends_like_json_def split: list.splits)
  have "rev J = takeWhile is_space (rev J) @ z # before"
    using d by (metis takeWhile_dropWhile_id)
  then have "J = rev before @ z # rev (takeWhile is_space (rev J))"
    by (metis rev_append rev.simps(2) rev_rev_ident append_assoc append_Cons append_Nil)
  moreover have "list_all is_space (rev (takeWhile is_space (rev J)))"
    by (simp add: list_all_iff) (meson set_takeWhileD)
  ultimately show ?thesis using that z by blast
qed

lemma fenced_clean:
  assumes "ends_like_json J" "opener \<in> set fence_openers" "closer \<in> set fence_closers"
  shows "clean_response (opener @ J @ closer) = clean_response J"
proof -
  from assms(1) obtain X z r where J: "J = X @ z # r" and r: "list_all is_space r"
    and z: "z \<in> set json_last_chars"
    by (rule ends_like_json_split)
  have nz: "\<not> is_space z" using z by (rule json_last_char_facts(1))
  have "unfence (opener @ J @ closer) = unfence ((opener @ X) @ z # (r @ closer))"
    by (simp add: J)
  also have "\<dots> = unfence (opener @ X) @ z # unfence (r @ closer)"
    by (rule unfence_split[OF z])
  also have "\<dots> = unfence X @ z # (r @ unfence closer)"
    by (simp only: unfence_opener[OF assms(2)] unfence_blank[OF r])
  finally have w: "unfence (opener @ J @ closer) = unfence X @ z # (r @ unfence closer)" .
  have "unfence J = unfence X @ z # unfence (r @ [])"
    unfolding J using unfence_split[OF z, of X r] by simp
  also have "\<dots> = unfence X @ z # r"
    by (simp only: unfence_blank[OF r]) (simp add: unfence_def)
  finally have j: "unfence J = unfence X @ z # r" .
  have "strip (unfence X @ z # (r @ unfence closer)) = strip (unfence X @ [z])"
    using r unfence_closer[OF assms(3)] by (intro strip_trailing[OF nz]) simp
  moreover have "strip (unfence X @ z # r) = strip (unfence X @ [z])"
    by (rule strip_trailing[OF nz r])
  ultimately show ?thesis by (simp add: clean_response_unfence w j)
qed

lemma json_digits_last: "json_digits d \<Longrightarrow> d \<noteq> [] \<and> last d \<in> set ''0123456789''"
  by (auto simp: json_digits_def list_all_iff)

lemma json_number_last:
  assumes "json_number n"
  shows "n \<noteq> [] \<and> last n \<in> set ''0123456789''"
proof -
  from assms obtain s i f e where n: "n = s @ i @ f @ e" and i: "json_int i"
    and f: "json_frac f" and e: "json_exp e"
    by (auto simp: json_number_def)
  have il: "i \<noteq> [] \<and> last i \<in> set ''0123456789''"
    using i json_digits_last by (simp add: json_int_def)
  show ?thesis
  proof (cases "e = []")
    case True
    show ?thesis
    proof (cases "f = []")
      case True
      with \<open>e = []\<close> n il show ?thesis by simp
    next
      case False
      with f obtain d where "f = ''.'' @ d" "json_digits d" by (auto simp: json_frac_def)
      with json_digits_last[of d] \<open>e = []\<close> n show ?thesis by simp
    qed
  next
    case False
    with e obtain m s' d where "e = m @ s' @ d" "json_digits d" by (auto simp: json_exp_def)
    with json_digits_last[of d] n show ?thesis by simp
  qed
qed

lemma json_value_last: "json_value v \<Longrightarrow> v \<noteq> [] \<and> last v \<in> set json_last_chars"
proof (induction v rule: json_value_json_elements_json_members.inducts(1)[where ?P2.0 = "\<lambda>x. True" and ?P3.0 = "\<lambda>x. True"])
  case (7 n)
  with json_number_last[of n] show ?case by (auto simp: json_last_chars_def)
next
  case (8 s)
  then show ?case by (auto simp: json_string_def json_last_chars_def)
next
  case (9 w) show ?case by (simp add: json_last_chars_def)
next
  case (10 es) show ?case by (simp add: json_last_chars_def)
next
  case (11 w) show ?case by (simp add: json_last_chars_def)
next
  case (12 ms) show ?case by (simp add: json_last_chars_def)
next
  case 1 show ?case by (simp add: json_last_chars_def)
next
  case 2 show ?case by (simp add: json_last_chars_def)
next
  case 3 show ?case by (simp add: json_last_chars_def)
next
  case 4 show ?case by (simp add: json_last_chars_def)
next
  case 5 show ?case by (simp add: json_last_chars_def)
next
  case 6 show ?case by (simp add: json_last_chars_def)
qed (rule TrueI)+

lemma json_ws_char_space:
  "c \<in> set [CHR '' '', CHR 0x09, CHR 0x0A, CHR 0x0D] \<Longrightarrow> is_space c"
proof -
  have "is_space (CHR '' '')" "is_space (CHR 0x09)" "is_space (CHR 0x0A)" "is_space (CHR 0x0D)"
    by (simp_all add: is_space_def)
  then show "c \<in> set [CHR '' '', CHR 0x09, CHR 0x0A, CHR 0x0D] \<Longrightarrow> is_space c"
    by (simp only: set_simps insert_iff empty_iff) blast
qed

lemma json_ws_space: "json_ws w \<Longrightarrow> list_all is_space w"
  unfolding json_ws_def list_all_iff using json_ws_char_space by blast

lemma json_text_ends: 
  assumes "json_text J"
  shows "ends_like_json J"
proof -
  from assms obtain a v b where J: "J = a @ v @ b" and b: "json_ws b" and v: "json_value v"
    by (auto simp: json_text_def)
  from json_value_last[OF v] obtain u z where vz: "v = u @ [z]" and z: "z \<in> set json_last_chars"
    by (metis append_butlast_last_id)
  have nz: "\<not> is_space z" using z by (auto simp: json_last_chars_def is_space_def)
  have "rev J = rev b @ z # rev u @ rev a" by (simp add: J vz)
  moreover have "\<And>x. x \<in> set (rev b) \<Longrightarrow> is_space x"
    using json_ws_space[OF b] by (simp add: list_all_iff)
  then have "dropWhile is_space (rev b @ z # rev u @ rev a) = dropWhile is_space (z # rev u @ rev a)"
    by (rule dropWhile_append2)
  ultimately have "dropWhile is_space (rev J) = z # rev u @ rev a"
    using nz by simp
  with z show ?thesis by (simp add: ends_like_json_def)
qed

lemma json_text_empty_object: "json_text ''{}''"
proof -
  have "json_value (''{'' @ [] @ ''}'')"
    by (rule json_value_json_elements_json_members.intros(11)) (simp add: json_ws_def)
  then have "json_value ''{}''" by simp
  moreover have "''{}'' = [] @ ''{}'' @ []" by simp
  moreover have "json_ws []" by (simp add: json_ws_def)
  ultimately show ?thesis unfolding json_text_def by blast
qed

lemma parse_reply_cong:
  "clean_response r1 = clean_response r2 \<Longrightarrow> parse_reply env r1 = parse_reply env r2"
  by (simp add: parse_reply_def)

lemma first_if_list_singleton: "\<not> is_list v \<Longrightarrow> first_if_list (JArr [v]) = first_if_list v"
  by (cases v) (simp_all add: first_if_list_def is_list_def)

lemma parse_reply_singleton:
  assumes "json_loads env (clean_response r1) = Inr (JArr [v])"
    and "json_loads env (clean_response r2) = Inr v" and "\<not> is_list v"
  shows "parse_reply env r1 = parse_reply env r2"
  using assms by (simp add: parse_reply_def first_if_list_singleton)

lemma demo_clean_small:
  "clean_response ''[[{}]]'' = ''[[{}]]''" "clean_response ''[{}]'' = ''[{}]''"
  "clean_response ''{}'' = ''{}''"
  by (simp_all add: clean_response_def strip_def is_space_def)

lemma demo_loads_small: "demo_loads ''{}'' = Inr (JObj [])"
  by (simp add: demo_loads_def analysis_json_def locate_json_def solution_json_def
        empty_solution_json_def surrogate_solution_json_def)

section \<open>Lemmas: the stages\<close>

lemma analyze_logs_trace:
  "snd (analyze_logs env logs h) =
     h @ [Invoked ''LogAnalyzer'', Completion ''LogAnalyzer'' (AnalyzePrompt logs) 4000]"
  by (simp add: analyze_logs_def seq_def emit_def call_claude_def lift_def split: sum.splits)

lemma locate_error_returns:
  assumes "locate_error env analysis codebase_provider h = (Inr ec, h')"
  shows "slice_check (root_cause ec) = Inr ()
       \<and> (\<exists>cp p. codebase_provider = Some cp
              \<and> h' = h @ [Invoked ''ErrorLocator'', Completion ''ErrorLocator'' p 3000])"
  using assms
  by (cases codebase_provider)
     (auto simp: locate_error_def seq_def emit_def ret_def raise_def lift_def call_claude_def
           context_of_reply_def Let_def split: sum.splits)

lemma propose_solution_returns:
  assumes "propose_solution env analysis error_context codebase_context h = (Inr sol, h')"
  shows "(\<exists>s. joined_or (log_analysis.affected_files analysis) ''Bilinmiyor'' = Inr s)
       \<and> (\<exists>n. py_len (affected_files sol) = Inr n)
       \<and> (\<exists>p. h' = h @ [Invoked ''SolutionArchitect'', Completion ''SolutionArchitect'' p 3000])"
  using assms
  by (auto simp: propose_solution_def seq_def emit_def lift_def call_claude_def
        solution_of_reply_def Let_def split: sum.splits)

lemma process_logs_at_proposal:
  assumes "elk_logs_json \<noteq> []"
    and "analyze_logs env elk_logs_json h0 = (Inr analysis, h1)"
    and "show_analysis env analysis h1 = (Inr (), h1)"
    and "locate_error env analysis codebase_provider h1 = (Inr ec, h2)"
    and "show_location env ec h2 = (Inr (), h2)"
    and "propose_solution env analysis (Some ec) codebase_context h2 = (Inr sol, h3)"
  shows "process_logs env repo_path codebase_provider elk_logs_json file_contents codebase_context
            save_changes_callback h0
         = seq (show_solution env sol) (\<lambda>u.
           seq (lift (nothing_to_change (affected_files sol))) (\<lambda>stop.
             if stop then ret no_operation
             else
               seq (generate_fix env sol (case file_contents of None \<Rightarrow> Map.empty | Some fc \<Rightarrow> fc)
                      codebase_provider) (\<lambda>fixed_files.
               seq (notify_changes env codebase_provider save_changes_callback fixed_files) (\<lambda>u.
               if fixed_files = [] then ret no_operation
               else create_fix_branch env repo_path analysis fixed_files codebase_provider)))) h3"
  using assms(1) by (simp add: process_logs_def seq_def assms(2-6))

lemma show_solution_nothing:
  "affected_files sol = JArr [] \<Longrightarrow>
   show_solution env sol h
     = (case encode_stdout env (''   '' @ py_format env (description sol)) of
          Some e \<Rightarrow> Inl e | None \<Rightarrow> Inr (), h)"
  by (simp add: show_solution_def print_text_def print_joined_def seq_def lift_def
        ret_def split: option.splits)

lemma process_logs_after_generation:
  assumes "elk_logs_json \<noteq> []"
    and "analyze_logs env elk_logs_json h0 = (Inr analysis, h1)"
    and "show_analysis env analysis h1 = (Inr (), h1)"
    and "locate_error env analysis codebase_provider h1 = (Inr ec, h2)"
    and "show_location env ec h2 = (Inr (), h2)"
    and "propose_solution env analysis (Some ec) codebase_context h2 = (Inr sol, h3)"
    and "show_solution env sol h3 = (Inr (), h3)"
    and "nothing_to_change (affected_files sol) = Inr False"
    and "generate_fix env sol (case file_contents of None \<Rightarrow> Map.empty | Some fc \<Rightarrow> fc)
           codebase_provider h3 = (Inr fixed_files, h4)"
  shows "process_logs env repo_path codebase_provider elk_logs_json file_contents codebase_context
            save_changes_callback h0
         = seq (notify_changes env codebase_provider save_changes_callback fixed_files)
             (\<lambda>u. if fixed_files = [] then ret no_operation
                  else create_fix_branch env repo_path analysis fixed_files codebase_provider) h4"
  unfolding process_logs_at_proposal[OF assms(1-6)]
  by (simp add: seq_def assms(7,8,9) lift_def)

section \<open>Lemmas: the version-control stage\<close>

lemma write_fixed_file_ok:
  "write_raises env repo_path cp item = None \<Longrightarrow>
   write_fixed_file env repo_path cp item u h = (Inr (), h @ write_events repo_path cp [item])"
  by (auto simp: write_fixed_file_def write_raises_def write_events_def seq_def emit_def lift_def Let_def
           split: option.splits)

lemma write_fixed_file_raises:
  "write_raises env repo_path cp item = Some e \<Longrightarrow>
   \<exists>h'. write_fixed_file env repo_path cp item u h = (Inl e, h')"
  by (auto simp: write_fixed_file_def write_raises_def seq_def emit_def lift_def Let_def
           split: option.splits)

lemma write_events_Cons:
  "write_events repo_path cp (item # items) = write_events repo_path cp [item] @ write_events repo_path cp items"
  by (simp add: write_events_def)

lemma writes_all_ok:
  "writes_ok env repo_path cp fixed_files \<Longrightarrow>
   for_each_prog (write_fixed_file env repo_path cp) fixed_files () h
     = (Inr (), h @ write_events repo_path cp fixed_files)"
proof (induction fixed_files arbitrary: h)
  case Nil
  then show ?case by (simp add: ret_def write_events_def)
next
  case (Cons item items)
  then have 1: "write_raises env repo_path cp item = None" and 2: "writes_ok env repo_path cp items"
    by (simp_all add: writes_ok_def)
  show ?case
    using Cons.IH[OF 2] write_fixed_file_ok[OF 1]
    by (simp add: seq_def write_events_Cons[of repo_path cp item items])
qed

lemma writes_some_fail:
  "\<not> writes_ok env repo_path cp fixed_files \<Longrightarrow>
   \<exists>e h'. for_each_prog (write_fixed_file env repo_path cp) fixed_files () h = (Inl e, h')
        \<and> (\<exists>item\<in>set fixed_files. write_raises env repo_path cp item = Some e)"
proof (induction fixed_files arbitrary: h)
  case Nil
  then show ?case by (simp add: writes_ok_def)
next
  case (Cons item items)
  show ?case
  proof (cases "write_raises env repo_path cp item")
    case None
    with Cons.prems have "\<not> writes_ok env repo_path cp items" by (simp add: writes_ok_def)
    from Cons.IH[OF this, of "h @ write_events repo_path cp [item]"] write_fixed_file_ok[OF None, of _ h]
    show ?thesis by (auto simp: seq_def)
  next
    case (Some e)
    from write_fixed_file_raises[OF Some, of _ h] Some
    show ?thesis by (auto simp: seq_def)
  qed
qed

lemma run_git_simps:
  "run_git env cmd h = (git env cmd, h @ [Git cmd])"
  by (simp add: run_git_def seq_def emit_def lift_def)

lemma run_git_checked_simps:
  "run_git_checked env cmd h =
     (case git env cmd of
        Inl e \<Rightarrow> (Inl e, h @ [Git cmd])
      | Inr p \<Rightarrow> (if returncode p \<noteq> 0
                  then (Inl (Exc CalledProcessError ''returned non-zero exit status''), h @ [Git cmd])
                  else (Inr p, h @ [Git cmd])))"
  by (simp add: run_git_checked_def seq_def run_git_simps raise_def ret_def split: sum.splits)

lemma branch_not_created:
  assumes "error_type analysis = JStr t"
    and "git_failed env [''git'', ''checkout'', ''-b'', branch_name_of env t]"
  shows "create_fix_branch env repo_path analysis fixed_files cp h
         = (Inr (failed_on (branch_name_of env t)),
            h @ [Invoked ''GitManager'', Git [''git'', ''checkout'', ''-b'', branch_name_of env t]])"
  using assms
  by (auto simp: create_fix_branch_def seq_def emit_def except_called_process_error_def
        run_git_checked_simps git_failed_def ret_def failed_on_def split: sum.splits)

lemma staging_failed:
  assumes "error_type analysis = JStr t"
    and "git_ok env [''git'', ''checkout'', ''-b'', branch_name_of env t]"
    and "writes_ok env repo_path cp fixed_files"
    and "git_failed env [''git'', ''add'', ''-A'']"
  shows "create_fix_branch env repo_path analysis fixed_files cp h
         = (Inr (failed_on (branch_name_of env t)),
            h @ [Invoked ''GitManager'', Git [''git'', ''checkout'', ''-b'', branch_name_of env t]]
              @ write_events repo_path cp fixed_files @ [Git [''git'', ''add'', ''-A'']])"
  using assms
  by (auto simp: create_fix_branch_def seq_def emit_def except_called_process_error_def
        run_git_checked_simps git_failed_def git_ok_def ret_def failed_on_def writes_all_ok
        split: sum.splits)

lemma nothing_to_commit:
  assumes "error_type analysis = JStr t"
    and "git_ok env [''git'', ''checkout'', ''-b'', branch_name_of env t]"
    and "writes_ok env repo_path cp fixed_files"
    and "git_ok env [''git'', ''add'', ''-A'']"
    and "status_blank env"
    and "git_ran env [''git'', ''checkout'', ''-'']"
    and "git_ran env [''git'', ''branch'', ''-D'', branch_name_of env t]"
  shows "create_fix_branch env repo_path analysis fixed_files cp h
         = (Inr \<lparr>branch_name = [], commit_message = ''No changes to commit'', files_changed = [],
                 success = False\<rparr>,
            h @ [Invoked ''GitManager'', Git [''git'', ''checkout'', ''-b'', branch_name_of env t]]
              @ write_events repo_path cp fixed_files
              @ [Git [''git'', ''add'', ''-A''], Git [''git'', ''status'', ''--porcelain''],
                 Git [''git'', ''checkout'', ''-''], Git [''git'', ''branch'', ''-D'', branch_name_of env t]])"
  using assms
  by (auto simp: create_fix_branch_def seq_def emit_def except_called_process_error_def
        run_git_checked_simps run_git_simps git_ran_def git_ok_def status_blank_def ret_def writes_all_ok
        split: sum.splits)

lemma commit_failed:
  assumes "error_type analysis = JStr t"
    and "git_ok env [''git'', ''checkout'', ''-b'', branch_name_of env t]"
    and "writes_ok env repo_path cp fixed_files"
    and "git_ok env [''git'', ''add'', ''-A'']"
    and "status_changed env"
    and "git_failed env [''git'', ''commit'', ''-m'', commit_message_of env analysis]"
  shows "create_fix_branch env repo_path analysis fixed_files cp h
         = (Inr (failed_on (branch_name_of env t)),
            h @ [Invoked ''GitManager'', Git [''git'', ''checkout'', ''-b'', branch_name_of env t]]
              @ write_events repo_path cp fixed_files
              @ [Git [''git'', ''add'', ''-A''], Git [''git'', ''status'', ''--porcelain''],
                 Git [''git'', ''commit'', ''-m'', commit_message_of env analysis]])"
  using assms
  by (auto simp: create_fix_branch_def seq_def emit_def except_called_process_error_def raise_def
        run_git_checked_simps run_git_simps git_failed_def git_ok_def status_changed_def ret_def
        failed_on_def writes_all_ok split: sum.splits)

lemma committed:
  assumes "error_type analysis = JStr t"
    and "git_ok env [''git'', ''checkout'', ''-b'', branch_name_of env t]"
    and "writes_ok env repo_path cp fixed_files"
    and "git_ok env [''git'', ''add'', ''-A'']"
    and "status_changed env"
    and "git_ok env [''git'', ''commit'', ''-m'', commit_message_of env analysis]"
  shows "create_fix_branch env repo_path analysis fixed_files cp h
         = (Inr \<lparr>branch_name = branch_name_of env t, commit_message = commit_message_of env analysis,
                 files_changed = map fst fixed_files, success = True\<rparr>,
            h @ [Invoked ''GitManager'', Git [''git'', ''checkout'', ''-b'', branch_name_of env t]]
              @ write_events repo_path cp fixed_files
              @ [Git [''git'', ''add'', ''-A''], Git [''git'', ''status'', ''--porcelain''],
                 Git [''git'', ''commit'', ''-m'', commit_message_of env analysis]])"
  using assms
  by (auto simp: create_fix_branch_def seq_def emit_def except_called_process_error_def raise_def
        run_git_checked_simps run_git_simps git_ok_def status_changed_def ret_def
        writes_all_ok split: sum.splits)

lemma write_failed:
  assumes "error_type analysis = JStr t"
    and "git_ok env [''git'', ''checkout'', ''-b'', branch_name_of env t]"
    and "\<not> writes_ok env repo_path cp fixed_files"
  shows "\<exists>e. (\<exists>item\<in>set fixed_files. write_raises env repo_path cp item = Some e)
           \<and> fst (create_fix_branch env repo_path analysis fixed_files cp h)
               = (if exc_class_of e = CalledProcessError then Inr (failed_on (branch_name_of env t))
                  else Inl e)"
proof -
  let ?h = "h @ [Invoked ''GitManager'', Git [''git'', ''checkout'', ''-b'', branch_name_of env t]]"
  obtain e h' where w: "for_each_prog (write_fixed_file env repo_path cp) fixed_files () ?h = (Inl e, h')"
    and i: "\<exists>item\<in>set fixed_files. write_raises env repo_path cp item = Some e"
    using writes_some_fail[OF assms(3)] by blast
  have "fst (create_fix_branch env repo_path analysis fixed_files cp h)
               = (if exc_class_of e = CalledProcessError then Inr (failed_on (branch_name_of env t))
                  else Inl e)"
    using assms(1,2) w
    by (auto simp: create_fix_branch_def seq_def emit_def except_called_process_error_def
        run_git_checked_simps git_ok_def ret_def failed_on_def split: sum.splits)
  with i show ?thesis by blast
qed

lemma success_needs_every_step:
  assumes "create_fix_branch env repo_path analysis fixed_files cp h = (Inr r, h')" and "success r"
  shows "\<exists>t. error_type analysis = JStr t
       \<and> git_ok env [''git'', ''checkout'', ''-b'', branch_name_of env t]
       \<and> writes_ok env repo_path cp fixed_files
       \<and> git_ok env [''git'', ''add'', ''-A'']
       \<and> status_changed env
       \<and> git_ok env [''git'', ''commit'', ''-m'', commit_message_of env analysis]"
proof (cases "error_type analysis")
  case (JStr t)
  let ?b = "branch_name_of env t"
  let ?h = "h @ [Invoked ''GitManager'', Git [''git'', ''checkout'', ''-b'', ?b]]"
  from assms JStr have c: "git_ok env [''git'', ''checkout'', ''-b'', ?b]"
    by (auto simp: create_fix_branch_def seq_def emit_def except_called_process_error_def
        run_git_checked_simps git_ok_def ret_def split: sum.splits if_splits)
  have w: "writes_ok env repo_path cp fixed_files"
  proof (rule ccontr)
    assume "\<not> writes_ok env repo_path cp fixed_files"
    from write_failed[OF JStr c this, of h] assms show False
      by (auto simp: failed_on_def split: if_splits)
  qed
  note wr = writes_all_ok[OF w, of ?h]
  from assms JStr c wr have a: "git_ok env [''git'', ''add'', ''-A'']"
    by (auto simp: create_fix_branch_def seq_def emit_def except_called_process_error_def
        run_git_checked_simps git_ok_def ret_def split: sum.splits if_splits)
  from assms JStr c wr a have s: "status_changed env"
    by (auto simp: create_fix_branch_def seq_def emit_def except_called_process_error_def
        run_git_checked_simps run_git_simps git_ok_def status_changed_def ret_def
        split: sum.splits if_splits)
  from assms JStr c wr a s have "git_ok env [''git'', ''commit'', ''-m'', commit_message_of env analysis]"
    by (auto simp: create_fix_branch_def seq_def emit_def except_called_process_error_def raise_def
        run_git_checked_simps run_git_simps git_ok_def status_changed_def ret_def
        split: sum.splits if_splits)
  with JStr c w a s show ?thesis by blast
qed (use assms in \<open>auto simp: create_fix_branch_def seq_def emit_def raise_def\<close>)

lemma branch_name_not_empty: "branch_name_of env t \<noteq> []"
  by (simp add: branch_name_of_def)

section \<open>Lemmas: the observer loop\<close>

lemma notify_change_pass:
  "callback_raises env cp cb item = None \<Longrightarrow>
   notify_change env cp cb item u h = (Inr (), h @ callback_events env cp [item])"
  by (auto simp: notify_change_def callback_raises_def callback_events_def ret_def seq_def emit_def lift_def
           split: option.splits)

lemma notify_change_fail:
  "callback_raises env cp cb item = Some e \<Longrightarrow>
   notify_change env cp cb item u h = (Inl e, h @ callback_events env cp [item])"
  by (auto simp: notify_change_def callback_raises_def callback_events_def ret_def seq_def emit_def lift_def
           split: option.splits)

lemma callback_events_Cons:
  "callback_events env cp (item # items) = callback_events env cp [item] @ callback_events env cp items"
  by (simp add: callback_events_def)

lemma notify_all_pass:
  "callbacks_pass env cp cb fixed_files \<Longrightarrow>
   for_each_prog (notify_change env cp cb) fixed_files () h = (Inr (), h @ callback_events env cp fixed_files)"
proof (induction fixed_files arbitrary: h)
  case Nil
  then show ?case by (simp add: ret_def callback_events_def)
next
  case (Cons item items)
  then have 1: "callback_raises env cp cb item = None" and 2: "callbacks_pass env cp cb items"
    by (simp_all add: callbacks_pass_def)
  show ?case
    using Cons.IH[OF 2] notify_change_pass[OF 1]
    by (simp add: seq_def callback_events_Cons[of env cp item items])
qed

lemma notify_some_fail:
  "\<not> callbacks_pass env cp cb fixed_files \<Longrightarrow>
   \<exists>e n. for_each_prog (notify_change env cp cb) fixed_files () h
            = (Inl e, h @ take n (callback_events env cp fixed_files))
        \<and> (\<exists>item\<in>set fixed_files. callback_raises env cp cb item = Some e)"
proof (induction fixed_files arbitrary: h)
  case Nil
  then show ?case by (simp add: callbacks_pass_def)
next
  case (Cons item items)
  show ?case
  proof (cases "callback_raises env cp cb item")
    case None
    with Cons.prems have "\<not> callbacks_pass env cp cb items" by (simp add: callbacks_pass_def)
    from Cons.IH[OF this, of "h @ callback_events env cp [item]"]
    obtain e n where r: "for_each_prog (notify_change env cp cb) items () (h @ callback_events env cp [item])
            = (Inl e, (h @ callback_events env cp [item]) @ take n (callback_events env cp items))"
      and i: "\<exists>item\<in>set items. callback_raises env cp cb item = Some e" by blast
    have "for_each_prog (notify_change env cp cb) (item # items) () h
          = (Inl e, h @ take (length (callback_events env cp [item]) + n) (callback_events env cp (item # items)))"
      using notify_change_pass[OF None] r
      by (simp add: seq_def callback_events_Cons[of env cp item items])
    with i show ?thesis by (intro exI[of _ e] exI) auto
  next
    case (Some e)
    have "for_each_prog (notify_change env cp cb) (item # items) () h
          = (Inl e, h @ take (length (callback_events env cp [item])) (callback_events env cp (item # items)))"
      using notify_change_fail[OF Some]
      by (simp add: seq_def callback_events_Cons[of env cp item items])
    with Some show ?thesis by (intro exI[of _ e] exI) auto
  qed
qed

section \<open>Lemmas: the concrete world\<close>

lemma demo_clean_analysis: "clean_response analysis_reply = analysis_json"
  by (simp add: clean_response_def analysis_reply_def analysis_json_def strip_def is_space_def)

lemma demo_clean_locate: "clean_response locate_json = locate_json"
  by (simp add: clean_response_def locate_json_def strip_def is_space_def)

lemma demo_clean_solution: "clean_response solution_json = solution_json"
  by (simp add: clean_response_def solution_json_def strip_def is_space_def)

lemma demo_clean_empty_solution: "clean_response empty_solution_json = empty_solution_json"
  by (simp add: clean_response_def empty_solution_json_def strip_def is_space_def)

lemma demo_clean_surrogate_solution: "clean_response surrogate_solution_json = surrogate_solution_json"
  by (simp add: clean_response_def surrogate_solution_json_def strip_def is_space_def)

lemma demo_loads_values:
  "demo_loads analysis_json =
        Inr (JObj [(''error_type'', JStr ''Null Pointer''),
                   (''error_message'', JStr ''UserService returned null''),
                   (''stack_trace'', JStr demo_trace)])"
  "demo_loads locate_json = Inr (JObj [(''root_cause'', JStr ''user is null'')])"
  "demo_loads solution_json =
        Inr (JObj [(''affected_files'', JArr [JStr ''UserController.java'']),
                   (''code_changes'', JObj [(''UserController.java'', JStr ''add a null check'')])])"
  "demo_loads empty_solution_json = Inr (JObj [(''affected_files'', JArr [])])"
  "demo_loads ''[[{}]]'' = Inr (JArr [JArr [JObj []]])"
  "demo_loads ''[{}]'' = Inr (JArr [JObj []])"
  "demo_loads surrogate_solution_json =
        Inr (JObj [(''description'', JStr surrogate_description), (''affected_files'', JArr [])])"
  by (simp_all add: demo_loads_def analysis_json_def locate_json_def solution_json_def
        empty_solution_json_def surrogate_solution_json_def)

lemma demo_env_fields:
  "llm demo_env = demo_llm" "json_loads demo_env = demo_loads" "git demo_env = demo_git"
  "now_iso demo_env = ''2024-01-01T00:00:00''" "now_stamp demo_env = ''20240101-000000''"
  "makedirs demo_env = (\<lambda>d. None)" "write_text demo_env = (\<lambda>p c. None)"
  "py_repr demo_env = (\<lambda>v. ''None'')" "encode_stdout demo_env = utf8_stdout"
  "int_max_str_digits demo_env = 4300"
  by (simp_all add: demo_env_def)

lemma demo_read_text:
  "read_text demo_env ''/repo/src/UserController.java''
     = Inr (''public class UserController {'' @ [CHR 0x0A] @ ''}'' @ [CHR 0x0A])"
  by (simp add: demo_env_def)

lemma demo_analyze:
  "analyze_logs demo_env demo_logs h =
     (Inr demo_analysis,
      h @ [Invoked ''LogAnalyzer'', Completion ''LogAnalyzer'' (AnalyzePrompt demo_logs) 4000])"
  by (simp add: analyze_logs_def seq_def emit_def call_claude_def lift_def analysis_of_reply_def
        parse_reply_def demo_env_fields demo_llm_def demo_clean_analysis demo_loads_values
        first_if_list_def dict_get_def demo_analysis_def)

lemma demo_locate:
  "locate_error demo_env demo_analysis (Some demo_provider) h =
     (Inr demo_context,
      h @ [Invoked ''ErrorLocator'',
           Completion ''ErrorLocator''
             (LocatePrompt (JStr ''Null Pointer'') (JStr ''UserService returned null'') (JStr ''medium'')
                (JStr demo_trace)
                (excerpts (py_take 10
       [\<lparr>path = ''/repo/src/UserController.java'', filename = ''UserController.java'', line = ''45'',
         content = ''... (first 20 lines) ...'' @ [CHR 0x0A] @ ''public class UserController {'' @ [CHR 0x0A] @ ''}'' @ [CHR 0x0A],
         relevance = ''stack_trace''\<rparr>,
        \<lparr>path = ''/repo/src/UserService.java'', filename = ''UserService.java'', line = ''?'',
         content = ''[Error reading file: [Errno 13] Permission denied]'',
         relevance = ''class_match''\<rparr>]))) 3000])"
  using demo_find[of 10]
  by (simp add: locate_error_def seq_def emit_def ret_def lift_def call_claude_def
        find_relevant_files_of_def demo_analysis_def context_of_reply_def parse_reply_def
        demo_clean_locate demo_loads_values first_if_list_def dict_get_def
        slice_check_def demo_context_def py_take_def Let_def demo_env_fields demo_llm_def)

lemma demo_propose:
  "propose_solution demo_env demo_analysis (Some demo_context) [] h =
     (Inr demo_solution,
      h @ [Invoked ''SolutionArchitect'',
           Completion ''SolutionArchitect''
             (SolutionPrompt (JStr ''Null Pointer'') (JStr ''UserService returned null'') ''Bilinmiyor''
                (JStr ''medium'') (JStr demo_trace)
                (Some (JStr ''Unknown'', JStr ''user is null'', JStr ''N/A'', JStr ''No summary available''))
                []) 3000])"
  by (simp add: propose_solution_def seq_def emit_def lift_def call_claude_def joined_or_def
        demo_analysis_def demo_context_def solution_of_reply_def parse_reply_def
        demo_env_fields demo_llm_def demo_clean_solution demo_loads_values
        first_if_list_def dict_get_def py_len_def demo_solution_def Let_def)

lemma demo_propose_empty:
  "propose_solution demo_env demo_analysis (Some demo_context) ''report only'' h =
     (Inr demo_empty_solution,
      h @ [Invoked ''SolutionArchitect'',
           Completion ''SolutionArchitect''
             (SolutionPrompt (JStr ''Null Pointer'') (JStr ''UserService returned null'') ''Bilinmiyor''
                (JStr ''medium'') (JStr demo_trace)
                (Some (JStr ''Unknown'', JStr ''user is null'', JStr ''N/A'', JStr ''No summary available''))
                ''report only'') 3000])"
  by (simp add: propose_solution_def seq_def emit_def lift_def call_claude_def joined_or_def
        demo_analysis_def demo_context_def solution_of_reply_def parse_reply_def
        demo_env_fields demo_llm_def demo_clean_empty_solution demo_loads_values
        first_if_list_def dict_get_def py_len_def demo_empty_solution_def Let_def)

lemma demo_propose_surrogate:
  "propose_solution demo_env demo_analysis (Some demo_context) ''describe only'' h =
     (Inr surrogate_solution,
      h @ [Invoked ''SolutionArchitect'',
           Completion ''SolutionArchitect''
             (SolutionPrompt (JStr ''Null Pointer'') (JStr ''UserService returned null'') ''Bilinmiyor''
                (JStr ''medium'') (JStr demo_trace)
                (Some (JStr ''Unknown'', JStr ''user is null'', JStr ''N/A'', JStr ''No summary available''))
                ''describe only'') 3000])"
  by (simp add: propose_solution_def seq_def emit_def lift_def call_claude_def joined_or_def
        demo_analysis_def demo_context_def solution_of_reply_def parse_reply_def
        demo_env_fields demo_llm_def demo_clean_surrogate_solution demo_loads_values
        first_if_list_def dict_get_def py_len_def surrogate_solution_def Let_def)

lemma demo_console:
  "utf8_stdout (''   Hata: '' @ ''Null Pointer'') = None"
  "utf8_stdout (''   Severity: '' @ ''medium'') = None"
  "utf8_stdout (''   Lokasyon: '' @ ''Unknown'') = None"
  "utf8_stdout (''   Root Cause: '' @ ''user is null'' @ ''...'') = None"
  "utf8_stdout (''   Summary: '' @ ''No summary available'') = None"
  "utf8_stdout (''   '' @ ''No description'') = None"
  "utf8_stdout (''   Files to Change: '' @ ''UserController.java'') = None"
  by (simp_all add: utf8_stdout_def lone_surrogate_def)

lemma demo_console_surrogate:
  "utf8_stdout (''   '' @ surrogate_description) = Some (surrogates_not_allowed 7)"
  by (simp add: utf8_stdout_def lone_surrogate_def surrogate_description_def eval_nat_numeral)

lemma demo_shows:
  "show_analysis demo_env demo_analysis h = (Inr (), h)"
  "show_location demo_env demo_context h = (Inr (), h)"
  "show_solution demo_env demo_solution h = (Inr (), h)"
  "show_solution demo_env demo_empty_solution h = (Inr (), h)"
  using demo_console
  by (simp_all add: show_analysis_def show_location_def show_solution_def
        print_text_def print_joined_def print_slice_def py_format_def seq_def lift_def ret_def
        demo_analysis_def demo_context_def demo_solution_def demo_empty_solution_def
        demo_env_fields py_join_def py_iter_def)

lemma demo_clean_code: "clean_code fix_reply = ''class UserController { }''"
  by (simp add: clean_code_def fix_reply_def strip_def is_space_def)

lemma demo_generate:
  "generate_fix demo_env demo_solution Map.empty (Some demo_provider) h =
     (Inr demo_fixed,
      h @ [Invoked ''CodeGenerator'',
           Completion ''CodeGenerator''
             (FixPrompt ''UserController.java'' (JStr ''add a null check'') (JStr ''No description'')
                (''public class UserController {'' @ [CHR 0x0A] @ ''}'' @ [CHR 0x0A])) 4000])"
  by (simp add: generate_fix_def seq_def emit_def lift_def ret_def call_claude_def py_iter_def
        demo_solution_def fix_file_def demo_provider_def basename_def after_last_def
        get_file_content_def demo_read_text dict_get_def demo_env_fields demo_llm_def
        demo_clean_code demo_fixed_def Let_def)

lemma demo_targets:
  "target_path ''/repo'' (Some demo_provider) ''UserController.java'' = ''/repo/src/UserController.java''"
  "dirname ''/repo/src/UserController.java'' = ''/repo/src''"
  by (simp_all add: target_path_def demo_provider_def basename_def after_last_def
        dirname_def Let_def)

lemma demo_slug: "error_slug_of ''Null Pointer'' = ''null-pointer''"
  by code_simp

lemma demo_names:
  "error_type demo_analysis = JStr ''Null Pointer''"
  "branch_name_of demo_env ''Null Pointer'' = ''fix/null-pointer-20240101-000000''"
  "branch_name_of (demo_env\<lparr>git := g\<rparr>) ''Null Pointer'' = ''fix/null-pointer-20240101-000000''"
  "branch_name_of (demo_env\<lparr>write_text := w\<rparr>) ''Null Pointer'' = ''fix/null-pointer-20240101-000000''"
  by (simp_all add: demo_analysis_def branch_name_of_def demo_slug demo_env_fields)

lemma demo_commit:
  "create_fix_branch demo_env ''/repo'' demo_analysis demo_fixed (Some demo_provider) h
     = (Inr \<lparr>branch_name = ''fix/null-pointer-20240101-000000'',
              commit_message = commit_message_of demo_env demo_analysis,
              files_changed = [''UserController.java''], success = True\<rparr>,
        h @ [Invoked ''GitManager'', Git [''git'', ''checkout'', ''-b'', ''fix/null-pointer-20240101-000000''],
             MakeDirs ''/repo/src'', WriteFile ''/repo/src/UserController.java'' ''class UserController { }'',
             Git [''git'', ''add'', ''-A''], Git [''git'', ''status'', ''--porcelain''],
             Git [''git'', ''commit'', ''-m'', commit_message_of demo_env demo_analysis]])"
proof -
  have c: "git_ok demo_env [''git'', ''checkout'', ''-b'', branch_name_of demo_env ''Null Pointer'']"
    by (simp add: git_ok_def demo_env_fields demo_git_def)
  have w: "writes_ok demo_env ''/repo'' (Some demo_provider) demo_fixed"
    by (simp add: writes_ok_def write_raises_def demo_fixed_def demo_env_fields)
  have a: "git_ok demo_env [''git'', ''add'', ''-A'']"
    by (simp add: git_ok_def demo_env_fields demo_git_def)
  have s: "status_changed demo_env"
    by (simp add: status_changed_def demo_env_fields demo_git_def strip_def is_space_def)
  have f: "git_ok demo_env [''git'', ''commit'', ''-m'', commit_message_of demo_env demo_analysis]"
    by (simp add: git_ok_def demo_env_fields demo_git_def)
  have e: "write_events ''/repo'' (Some demo_provider) demo_fixed
           = [MakeDirs ''/repo/src'', WriteFile ''/repo/src/UserController.java'' ''class UserController { }'']"
    by (simp add: write_events_def demo_fixed_def demo_targets)
  have m: "map fst demo_fixed = [''UserController.java'']" by (simp add: demo_fixed_def)
  from committed[OF demo_names(1) c w a s f, of h]
  show ?thesis by (simp only: demo_names e m append_Nil append_Cons append_assoc)
qed

lemma demo_callback_events:
  "callback_events demo_env demo_provider demo_fixed
     = [Callback ''UserController.java''
          (''public class UserController {'' @ [CHR 0x0A] @ ''}'' @ [CHR 0x0A])
          ''class UserController { }'']"
  by (simp add: callback_events_def demo_fixed_def demo_provider_def basename_def after_last_def
        get_file_content_def demo_read_text)

lemma demo_guards:
  "nothing_to_change (affected_files demo_solution) = Inr False"
  "demo_logs \<noteq> []" "demo_fixed \<noteq> []"
  by (simp_all add: nothing_to_change_def demo_solution_def py_len_def demo_logs_def demo_fixed_def)

section \<open>The claims\<close>

subsection \<open>C6: a line number beyond the conversion limit\<close>

text \<open>
  C6. \<^verbatim>\<open>find_relevant_files\<close> guards the conversion of a frame's line number with
  \<^verbatim>\<open>isdigit\<close> and reads files under a handler, but the conversion itself stands
  outside every \<^verbatim>\<open>try\<close>. A stack trace whose Java frame names a line number of 4301
  digits is matched by the frame pattern, the number passes \<^verbatim>\<open>isdigit\<close>, and
  \<^verbatim>\<open>int\<close> raises \<^verbatim>\<open>ValueError\<close> under the default limit of 4300 digits: the call
  raises and returns no list.
\<close>

theorem find_relevant_files_raises_on_long_line_number:
  "find_relevant_files (demo_env\<lparr>frame_matches := long_trace_matches\<rparr>) demo_provider long_trace
       ''UserService returned null'' 10
   = Inl (Exc ValueError ''Exceeds the limit (4300 digits) for integer string conversion: value has 4301 digits; use sys.set_int_max_str_digits() to increase the limit'')"
proof -
  have d: "isdigit long_number"
    by (simp add: isdigit_def long_number_def list_all_iff is_digit_def)
  have a: "list_all is_digit long_number"
    by (simp add: long_number_def list_all_iff is_digit_def)
  have n: "long_number \<noteq> []" "length long_number = 4301"
    by (simp_all add: long_number_def)
  have c: "char_of (48::nat) = CHR ''0''" "char_of (49::nat) = CHR ''1''"
    "char_of (51::nat) = CHR ''3''" "char_of (52::nat) = CHR ''4''"
    by code_simp+
  have g: "digits_of_nat 4300 = ''4300''" "digits_of_nat 4301 = ''4301''"
    by (simp_all add: digits_of_nat.simps c)
  have l: "line_argument (demo_env\<lparr>frame_matches := long_trace_matches\<rparr>) long_number
        = Inl (Exc ValueError ''Exceeds the limit (4300 digits) for integer string conversion: value has 4301 digits; use sys.set_int_max_str_digits() to increase the limit'')"
    by (simp add: line_argument_def d py_int_def a n g demo_env_def)
  show ?thesis
    by (simp add: find_relevant_files_def file_patterns_def long_trace_matches_def
          add_frame_match_def demo_provider_def after_last_def l Let_def)
qed

subsection \<open>C7: size, distinctness and order of the retrieved list\<close>

text \<open>
  C7, amended. The list \<^verbatim>\<open>find_relevant_files\<close> returns has at most \<open>max_files\<close> entries
  when \<open>max_files\<close> is not negative. For every \<open>max_files\<close> no two entries share a path,
  and the entries tagged \<^verbatim>\<open>stack_trace\<close> come first and those tagged \<^verbatim>\<open>class_match\<close>
  after them, each group in discovery order: the file names of the first group follow
  the order of the stack-frame matches, the paths of the second the order of the
  class-index hits of the capitalised words.
\<close>

theorem find_relevant_files_bounded_distinct_ordered:
  assumes "find_relevant_files env cp s msg n = Inr r"
  shows "(0 \<le> n \<longrightarrow> int (length r) \<le> n) \<and> distinct (map path r) \<and>
     (\<exists>a b. r = a @ b
        \<and> (\<forall>f\<in>set a. relevance f = ''stack_trace'')
        \<and> (\<forall>f\<in>set b. relevance f = ''class_match'')
        \<and> subseq (map filename a) (frame_files env s)
        \<and> subseq (map path b) (class_paths env cp msg))"
proof -
  obtain a b where run: "r = py_take n (a @ b)"
    and d: "distinct (map path (a @ b))"
    and ra: "\<forall>f\<in>set a. relevance f = ''stack_trace'' \<and> unreadable_marked env f"
    and rb: "\<forall>f\<in>set b. relevance f = ''class_match'' \<and> unreadable_marked env f"
    and sa: "subseq (map filename a) (frame_files env s)"
    and sb: "subseq (map path b) (class_paths env cp msg)"
    using find_relevant_files_shape[OF assms] by blast
  obtain k where k: "py_take n (a @ b) = take k (a @ b)" and kn: "0 \<le> n \<longrightarrow> k = nat n"
    using py_take_is_take by blast
  from run k have r: "r = take k a @ take (k - length a) b" by simp
  have len: "0 \<le> n \<longrightarrow> int (length r) \<le> n"
    using r kn by auto
  have "distinct (map path (take k (a @ b)))"
    using d by (simp only: take_map[symmetric] distinct_take)
  then have dist: "distinct (map path r)" using r by simp
  have s1: "subseq (map filename (take k a)) (frame_files env s)"
    using sa by (metis subseq_order.trans prefix_imp_subseq take_is_prefix take_map)
  have s2: "subseq (map path (take (k - length a) b)) (class_paths env cp msg)"
    using sb by (metis subseq_order.trans prefix_imp_subseq take_is_prefix take_map)
  have "\<forall>f\<in>set (take k a). relevance f = ''stack_trace''"
    using ra by (auto dest: in_set_takeD)
  moreover have "\<forall>f\<in>set (take (k - length a) b). relevance f = ''class_match''"
    using rb by (auto dest: in_set_takeD)
  ultimately show ?thesis using len dist r s1 s2 by blast
qed

theorem find_relevant_files_bounded_distinct_ordered_witness:
  "find_relevant_files demo_env demo_provider demo_trace ''UserService returned null'' 1 =
     Inr [\<lparr>path = ''/repo/src/UserController.java'', filename = ''UserController.java'', line = ''45'',
         content = ''... (first 20 lines) ...'' @ [CHR 0x0A] @ ''public class UserController {'' @ [CHR 0x0A] @ ''}'' @ [CHR 0x0A],
         relevance = ''stack_trace''\<rparr>]
   \<and> int (length [\<lparr>path = ''/repo/src/UserController.java'', filename = ''UserController.java'', line = ''45'',
         content = ''... (first 20 lines) ...'' @ [CHR 0x0A] @ ''public class UserController {'' @ [CHR 0x0A] @ ''}'' @ [CHR 0x0A],
         relevance = ''stack_trace''\<rparr>]) \<le> 1"
proof -
  have run: "find_relevant_files demo_env demo_provider demo_trace ''UserService returned null'' 1 =
     Inr [\<lparr>path = ''/repo/src/UserController.java'', filename = ''UserController.java'', line = ''45'',
         content = ''... (first 20 lines) ...'' @ [CHR 0x0A] @ ''public class UserController {'' @ [CHR 0x0A] @ ''}'' @ [CHR 0x0A],
         relevance = ''stack_trace''\<rparr>]"
    by (simp add: demo_find py_take_def)
  from find_relevant_files_bounded_distinct_ordered[OF run] run show ?thesis by simp
qed

text \<open>
  C7 as stated fails for a negative \<open>max_files\<close>: two files are found, the slice
  \<^verbatim>\<open>relevant_files[:-1]\<close> drops the last and returns one entry, which is more than \<open>-1\<close>.
\<close>

theorem find_relevant_files_negative_max_files:
  "find_relevant_files demo_env demo_provider demo_trace ''UserService returned null'' (- 1) =
     Inr [\<lparr>path = ''/repo/src/UserController.java'', filename = ''UserController.java'', line = ''45'',
         content = ''... (first 20 lines) ...'' @ [CHR 0x0A] @ ''public class UserController {'' @ [CHR 0x0A] @ ''}'' @ [CHR 0x0A],
         relevance = ''stack_trace''\<rparr>]
   \<and> \<not> int (length [\<lparr>path = ''/repo/src/UserController.java'', filename = ''UserController.java'', line = ''45'',
         content = ''... (first 20 lines) ...'' @ [CHR 0x0A] @ ''public class UserController {'' @ [CHR 0x0A] @ ''}'' @ [CHR 0x0A],
         relevance = ''stack_trace''\<rparr>]) \<le> - 1"
  by (simp add: demo_find py_take_def)

subsection \<open>C9: the index round trip\<close>




subsection \<open>C4: fenced replies and one-element lists\<close>

text \<open>
  C4, amended. For every JSON text \<open>J\<close>, a reply that wraps \<open>J\<close> in code-fence markers is
  cleaned to the same text as \<open>J\<close> itself, and so parsed by each of the three JSON stages
  to the same result. And a reply that is a one-element JSON array is parsed as its
  element returned directly is, when that element is not itself an array.
\<close>

theorem reply_parsing_ignores_fences_and_singleton_lists:
  "(json_text J \<and> opener \<in> set fence_openers \<and> closer \<in> set fence_closers \<longrightarrow>
       clean_response (opener @ J @ closer) = clean_response J
     \<and> parse_reply env (opener @ J @ closer) = parse_reply env J
     \<and> analysis_of_reply env (opener @ J @ closer) = analysis_of_reply env J
     \<and> context_of_reply env paths (opener @ J @ closer) = context_of_reply env paths J
     \<and> solution_of_reply env (opener @ J @ closer) = solution_of_reply env J)
   \<and> (json_loads env (clean_response r1) = Inr (JArr [v])
        \<and> json_loads env (clean_response r2) = Inr v \<and> \<not> is_list v \<longrightarrow>
       parse_reply env r1 = parse_reply env r2
     \<and> analysis_of_reply env r1 = analysis_of_reply env r2
     \<and> context_of_reply env paths r1 = context_of_reply env paths r2
     \<and> solution_of_reply env r1 = solution_of_reply env r2)"
proof (intro conjI impI)
  assume a: "json_text J \<and> opener \<in> set fence_openers \<and> closer \<in> set fence_closers"
  then have "ends_like_json J" using json_text_ends by blast
  with a show c: "clean_response (opener @ J @ closer) = clean_response J"
    using fenced_clean by blast
  then show p: "parse_reply env (opener @ J @ closer) = parse_reply env J"
    by (rule parse_reply_cong)
  show "analysis_of_reply env (opener @ J @ closer) = analysis_of_reply env J"
    by (simp add: analysis_of_reply_def p)
  show "context_of_reply env paths (opener @ J @ closer) = context_of_reply env paths J"
    by (simp add: context_of_reply_def p)
  show "solution_of_reply env (opener @ J @ closer) = solution_of_reply env J"
    by (simp add: solution_of_reply_def p)
next
  assume "json_loads env (clean_response r1) = Inr (JArr [v])
        \<and> json_loads env (clean_response r2) = Inr v \<and> \<not> is_list v"
  then show p: "parse_reply env r1 = parse_reply env r2"
    using parse_reply_singleton by blast
  show "analysis_of_reply env r1 = analysis_of_reply env r2"
    by (simp add: analysis_of_reply_def p)
  show "context_of_reply env paths r1 = context_of_reply env paths r2"
    by (simp add: context_of_reply_def p)
  show "solution_of_reply env r1 = solution_of_reply env r2"
    by (simp add: solution_of_reply_def p)
qed

theorem reply_parsing_ignores_fences_and_singleton_lists_witness:
  "parse_reply demo_env (''```json'' @ [CHR 0x0A] @ ''{}'' @ [CHR 0x0A] @ ''```'') = parse_reply demo_env ''{}''
   \<and> parse_reply demo_env ''[{}]'' = parse_reply demo_env ''{}''
   \<and> parse_reply demo_env ''{}'' = Inr []"
proof -
  have e: "json_text ''{}''" by (rule json_text_empty_object)
  have o: "''```json'' @ [CHR 0x0A] \<in> set fence_openers" by (simp add: fence_openers_def)
  have c: "[CHR 0x0A] @ ''```'' \<in> set fence_closers" by (simp add: fence_closers_def)
  have l1: "json_loads demo_env (clean_response ''[{}]'') = Inr (JArr [JObj []])"
    by (simp add: demo_clean_small demo_env_fields demo_loads_values)
  have l2: "json_loads demo_env (clean_response ''{}'') = Inr (JObj [])"
    by (simp add: demo_clean_small demo_env_fields demo_loads_small)
  have n: "\<not> is_list (JObj [])" by (simp add: is_list_def)
  note t = reply_parsing_ignores_fences_and_singleton_lists[where env = demo_env
      and J = "''{}''" and opener = "''```json'' @ [CHR 0x0A]" and closer = "[CHR 0x0A] @ ''```''"
      and ?r1.0 = "''[{}]''" and ?r2.0 = "''{}''" and v = "JObj []" and paths = "[]"]
  from t e o c have 1: "parse_reply demo_env ((''```json'' @ [CHR 0x0A]) @ ''{}'' @ [CHR 0x0A] @ ''```'')
       = parse_reply demo_env ''{}''" by blast
  from t l1 l2 n have 2: "parse_reply demo_env ''[{}]'' = parse_reply demo_env ''{}''" by blast
  have 3: "parse_reply demo_env ''{}'' = Inr []"
    using l2 by (simp add: parse_reply_def first_if_list_def)
  from 1 have first: "parse_reply demo_env (''```json'' @ [CHR 0x0A] @ ''{}'' @ [CHR 0x0A] @ ''```'') = parse_reply demo_env ''{}''"
    by (simp only: append_assoc)
  from first 2 3 show ?thesis by (intro conjI)
qed

text \<open>
  C4 as stated fails for a one-element array whose element is an array: the stages unwrap
  a list once, so \<^verbatim>\<open>[[{}]]\<close> is rejected as not being a dict, while its element
  \<^verbatim>\<open>[{}]\<close>, returned directly, is unwrapped to the empty dict and accepted.
\<close>

theorem nested_singleton_list_parses_differently:
  "json_loads demo_env (clean_response ''[[{}]]'') = Inr (JArr [JArr [JObj []]])
   \<and> json_loads demo_env (clean_response ''[{}]'') = Inr (JArr [JObj []])
   \<and> parse_reply demo_env ''[[{}]]'' = Inl (Exc ValueError ''API yaniti sozluk formatinda degil'')
   \<and> parse_reply demo_env ''[{}]'' = Inr []
   \<and> analysis_of_reply demo_env ''[[{}]]'' \<noteq> analysis_of_reply demo_env ''[{}]''"
  by (simp add: parse_reply_def analysis_of_reply_def demo_clean_small demo_env_fields
        demo_loads_values first_if_list_def)

subsection \<open>C8: localisation without an index\<close>

text \<open>
  C8. Without an index \<^verbatim>\<open>locate_error\<close> never assembles its prompt: the variable is
  unbound where the completion call reads it, the call raises \<^verbatim>\<open>UnboundLocalError\<close>
  and no completion is requested. With an index the prompt is assembled: when the
  retrieval returns, the completion is requested with the localisation prompt.
\<close>

theorem locate_error_without_index:
  "locate_error env analysis None h =
     (Inl (Exc UnboundLocalError
        ''cannot access local variable 'prompt' where it is not associated with a value''),
      h @ [Invoked ''ErrorLocator''])
   \<and> (case find_relevant_files_of env cp (stack_trace analysis) (error_message analysis) 10 of
        Inl e \<Rightarrow> locate_error env analysis (Some cp) h = (Inl e, h @ [Invoked ''ErrorLocator''])
      | Inr found_files \<Rightarrow>
          snd (locate_error env analysis (Some cp) h) =
            h @ [Invoked ''ErrorLocator'',
                 Completion ''ErrorLocator''
                   (LocatePrompt (error_type analysis) (error_message analysis) (severity analysis)
                      (stack_trace analysis) (excerpts found_files)) 3000])"
  by (simp add: locate_error_def seq_def emit_def ret_def raise_def lift_def call_claude_def
           split: sum.splits)

subsection \<open>C2: the empty batch\<close>

text \<open>
  C2. For an empty batch \<^verbatim>\<open>process_logs\<close> returns the result with \<open>success = False\<close>,
  an empty branch name and no changed file, and the trace of the run is unchanged: no
  stage agent is invoked, no completion is requested and no git command runs.
\<close>

theorem process_logs_empty_batch:
  "process_logs env repo_path codebase_provider [] file_contents codebase_context save_changes_callback h
   = (Inr \<lparr>branch_name = [], commit_message = [], files_changed = [], success = False\<rparr>, h)"
  by (simp add: process_logs_def ret_def no_operation_def)

subsection \<open>C3: a solution that changes no file\<close>

text \<open>
  C3, amended. In every run in which the proposed solution has an empty \<open>affected_files\<close>
  list, \<^verbatim>\<open>process_logs\<close> goes no further than the proposal stage: the run consists of
  the three invocations and completions of the analysis, localisation and proposal
  stages, and neither \<^verbatim>\<open>generate_fix\<close> nor \<^verbatim>\<open>create_fix_branch\<close> is invoked. When
  the description of the solution can be written to the console, the run returns the
  \<open>success = False\<close> result; when it cannot, the exception of the \<^verbatim>\<open>print\<close> leaves
  \<^verbatim>\<open>process_logs\<close> and no result is returned.
\<close>

theorem process_logs_stops_after_proposal:
  assumes "elk_logs_json \<noteq> []"
    and "analyze_logs env elk_logs_json h0 = (Inr analysis, h1)"
    and "show_analysis env analysis h1 = (Inr (), h1)"
    and "locate_error env analysis codebase_provider h1 = (Inr ec, h2)"
    and "show_location env ec h2 = (Inr (), h2)"
    and "propose_solution env analysis (Some ec) codebase_context h2 = (Inr sol, h3)"
    and "affected_files sol = JArr []"
  shows "process_logs env repo_path codebase_provider elk_logs_json file_contents codebase_context
            save_changes_callback h0
         = (case encode_stdout env (''   '' @ py_format env (description sol)) of
              Some e \<Rightarrow> Inl e
            | None \<Rightarrow> Inr \<lparr>branch_name = [], commit_message = [], files_changed = [], success = False\<rparr>,
            h3)
       \<and> (\<exists>p2 p3. h3 = h0 @ [Invoked ''LogAnalyzer'',
                                Completion ''LogAnalyzer'' (AnalyzePrompt elk_logs_json) 4000,
                                Invoked ''ErrorLocator'', Completion ''ErrorLocator'' p2 3000,
                                Invoked ''SolutionArchitect'', Completion ''SolutionArchitect'' p3 3000])
       \<and> Invoked ''CodeGenerator'' \<notin> set (drop (length h0) h3)
       \<and> Invoked ''GitManager'' \<notin> set (drop (length h0) h3)"
proof -
  have stop: "nothing_to_change (affected_files sol) = Inr True"
    by (simp add: nothing_to_change_def assms(7))
  have run: "process_logs env repo_path codebase_provider elk_logs_json file_contents codebase_context
            save_changes_callback h0
         = (case encode_stdout env (''   '' @ py_format env (description sol)) of
              Some e \<Rightarrow> Inl e | None \<Rightarrow> Inr no_operation, h3)"
    unfolding process_logs_at_proposal[OF assms(1-6)]
    by (simp add: seq_def show_solution_nothing[OF assms(7)] stop lift_def ret_def split: option.splits)
  have t1: "h1 = h0 @ [Invoked ''LogAnalyzer'', Completion ''LogAnalyzer'' (AnalyzePrompt elk_logs_json) 4000]"
    using analyze_logs_trace[of env elk_logs_json h0] assms(2) by simp
  obtain p2 where t2: "h2 = h1 @ [Invoked ''ErrorLocator'', Completion ''ErrorLocator'' p2 3000]"
    using locate_error_returns[OF assms(4)] by blast
  obtain p3 where t3: "h3 = h2 @ [Invoked ''SolutionArchitect'', Completion ''SolutionArchitect'' p3 3000]"
    using propose_solution_returns[OF assms(6)] by blast
  have t: "h3 = h0 @ [Invoked ''LogAnalyzer'',
                                Completion ''LogAnalyzer'' (AnalyzePrompt elk_logs_json) 4000,
                                Invoked ''ErrorLocator'', Completion ''ErrorLocator'' p2 3000,
                                Invoked ''SolutionArchitect'', Completion ''SolutionArchitect'' p3 3000]"
    using t1 t2 t3 by simp
  show ?thesis
    using run t unfolding no_operation_def by simp
qed

theorem process_logs_stops_after_proposal_witness:
  "process_logs demo_env ''/repo'' (Some demo_provider) demo_logs None ''report only'' None []
     = (Inr \<lparr>branch_name = [], commit_message = [], files_changed = [], success = False\<rparr>,
        snd (propose_solution demo_env demo_analysis (Some demo_context) ''report only''
               (snd (locate_error demo_env demo_analysis (Some demo_provider)
                       (snd (analyze_logs demo_env demo_logs []))))))
   \<and> Invoked ''CodeGenerator'' \<notin> set (snd (process_logs demo_env ''/repo'' (Some demo_provider)
                                                  demo_logs None ''report only'' None []))
   \<and> Invoked ''GitManager'' \<notin> set (snd (process_logs demo_env ''/repo'' (Some demo_provider)
                                               demo_logs None ''report only'' None []))"
proof -
  have l: "demo_logs \<noteq> []" by (simp add: demo_logs_def)
  have e: "affected_files demo_empty_solution = JArr []" by (simp add: demo_empty_solution_def)
  have d: "encode_stdout demo_env (''   '' @ py_format demo_env (description demo_empty_solution)) = None"
    using demo_console(6) by (simp add: demo_env_fields py_format_def demo_empty_solution_def)
  from process_logs_stops_after_proposal[OF l demo_analyze demo_shows(1) demo_locate demo_shows(2)
         demo_propose_empty e, of "''/repo''" None None "[]"] d
  show ?thesis by (simp add: demo_analyze demo_locate demo_propose_empty)
qed

text \<open>
  C3 as stated fails for a description that the console cannot encode. The reply
  \<^verbatim>\<open>{"description": "fix \ud83d later", "affected_files": []}\<close> is parsed to a solution
  with an empty file list; line 750 prints the description before the list is tested,
  the \<^verbatim>\<open>print\<close> raises \<^verbatim>\<open>UnicodeEncodeError\<close>, and the run ends with that exception
  and not with the \<open>success = False\<close> result.
\<close>

theorem process_logs_raises_on_unprintable_description:
  "fst (propose_solution demo_env demo_analysis (Some demo_context) ''describe only''
          (snd (locate_error demo_env demo_analysis (Some demo_provider)
                  (snd (analyze_logs demo_env demo_logs [])))))
     = Inr surrogate_solution
   \<and> affected_files surrogate_solution = JArr []
   \<and> fst (process_logs demo_env ''/repo'' (Some demo_provider) demo_logs None ''describe only'' None [])
       = Inl (surrogates_not_allowed 7)
   \<and> exc_class_of (surrogates_not_allowed 7) = UnicodeEncodeError"
proof -
  have l: "demo_logs \<noteq> []" by (simp add: demo_logs_def)
  have e: "affected_files surrogate_solution = JArr []" by (simp add: surrogate_solution_def)
  have d: "encode_stdout demo_env (''   '' @ py_format demo_env (description surrogate_solution))
           = Some (surrogates_not_allowed 7)"
    using demo_console_surrogate by (simp add: demo_env_fields py_format_def surrogate_solution_def)
  have ss: "show_solution demo_env surrogate_solution h = (Inl (surrogates_not_allowed 7), h)" for h
    using d by (simp add: show_solution_nothing[OF e])
  have "fst (process_logs demo_env ''/repo'' (Some demo_provider) demo_logs None ''describe only'' None [])
       = Inl (surrogates_not_allowed 7)"
    unfolding process_logs_at_proposal[OF l demo_analyze demo_shows(1) demo_locate demo_shows(2)
         demo_propose_surrogate]
    by (simp add: seq_def ss)
  then show ?thesis
    by (simp add: e demo_analyze demo_locate demo_propose_surrogate surrogates_not_allowed_def)
qed

subsection \<open>C5: the observer callback\<close>

text \<open>
  C5, amended. In a run with an observer callback that reaches code generation, the
  callback is called once for each fixed file whose base name is in the file index, in
  the order of the fixed files, with the base name, the text read from the indexed path
  and the fixed text. When no call raises, the run goes on to the version-control stage
  (or ends with the \<open>success = False\<close> result when no file was fixed). When a call
  raises, the exception leaves \<^verbatim>\<open>process_logs\<close> after the calls made so far, and the
  version-control stage is not reached. A run reaches code generation when its three
  first stages return, the console lines between them are written and the solution
  names a file.
\<close>

theorem process_logs_notifies_observer:
  assumes "elk_logs_json \<noteq> []"
    and "analyze_logs env elk_logs_json h0 = (Inr analysis, h1)"
    and "show_analysis env analysis h1 = (Inr (), h1)"
    and "locate_error env analysis (Some cp) h1 = (Inr ec, h2)"
    and "show_location env ec h2 = (Inr (), h2)"
    and "propose_solution env analysis (Some ec) codebase_context h2 = (Inr sol, h3)"
    and "show_solution env sol h3 = (Inr (), h3)"
    and "nothing_to_change (affected_files sol) = Inr False"
    and "generate_fix env sol (case file_contents of None \<Rightarrow> Map.empty | Some fc \<Rightarrow> fc)
           (Some cp) h3 = (Inr fixed_files, h4)"
  shows "(callbacks_pass env cp cb fixed_files \<longrightarrow>
            process_logs env repo_path (Some cp) elk_logs_json file_contents codebase_context (Some cb) h0
            = (if fixed_files = [] then (Inr no_operation, h4)
               else create_fix_branch env repo_path analysis fixed_files (Some cp)
                      (h4 @ callback_events env cp fixed_files)))
       \<and> (\<not> callbacks_pass env cp cb fixed_files \<longrightarrow>
            (\<exists>e n. process_logs env repo_path (Some cp) elk_logs_json file_contents codebase_context
                       (Some cb) h0
                     = (Inl e, h4 @ take n (callback_events env cp fixed_files))
                  \<and> (\<exists>item\<in>set fixed_files. callback_raises env cp cb item = Some e)))"
proof -
  note run = process_logs_after_generation[OF assms, of repo_path "Some cb"]
  show ?thesis
  proof (intro conjI impI)
    assume "callbacks_pass env cp cb fixed_files"
    from notify_all_pass[OF this, of h4]
    show "process_logs env repo_path (Some cp) elk_logs_json file_contents codebase_context (Some cb) h0
            = (if fixed_files = [] then (Inr no_operation, h4)
               else create_fix_branch env repo_path analysis fixed_files (Some cp)
                      (h4 @ callback_events env cp fixed_files))"
      unfolding run by (simp add: seq_def notify_changes_def ret_def callback_events_def)
  next
    assume "\<not> callbacks_pass env cp cb fixed_files"
    from notify_some_fail[OF this, of h4]
    show "\<exists>e n. process_logs env repo_path (Some cp) elk_logs_json file_contents codebase_context
                       (Some cb) h0
                     = (Inl e, h4 @ take n (callback_events env cp fixed_files))
                  \<and> (\<exists>item\<in>set fixed_files. callback_raises env cp cb item = Some e)"
      unfolding run by (auto simp: seq_def notify_changes_def)
  qed
qed

theorem process_logs_notifies_observer_witness:
  "process_logs demo_env ''/repo'' (Some demo_provider) demo_logs None [] (Some (\<lambda>f original fixed. None)) []
     = create_fix_branch demo_env ''/repo'' demo_analysis demo_fixed (Some demo_provider)
         (snd (generate_fix demo_env demo_solution Map.empty (Some demo_provider)
            (snd (propose_solution demo_env demo_analysis (Some demo_context) []
               (snd (locate_error demo_env demo_analysis (Some demo_provider)
                       (snd (analyze_logs demo_env demo_logs []))))))) 
          @ [Callback ''UserController.java''
               (''public class UserController {'' @ [CHR 0x0A] @ ''}'' @ [CHR 0x0A])
               ''class UserController { }''])
   \<and> fst (process_logs demo_env ''/repo'' (Some demo_provider) demo_logs None []
             (Some (\<lambda>f original fixed. None)) [])
       = Inr \<lparr>branch_name = ''fix/null-pointer-20240101-000000'',
              commit_message = commit_message_of demo_env demo_analysis,
              files_changed = [''UserController.java''], success = True\<rparr>"
proof -
  have g: "generate_fix demo_env demo_solution (case None of None \<Rightarrow> Map.empty | Some fc \<Rightarrow> fc)
             (Some demo_provider) h = (Inr demo_fixed, snd (generate_fix demo_env demo_solution Map.empty (Some demo_provider) h))" for h
    by (simp add: demo_generate)
  have p: "callbacks_pass demo_env demo_provider (\<lambda>f original fixed. None) demo_fixed"
    by (simp add: callbacks_pass_def callback_raises_def demo_fixed_def split: option.splits)
  from process_logs_notifies_observer[OF demo_guards(2) demo_analyze demo_shows(1) demo_locate
         demo_shows(2) demo_propose demo_shows(3) demo_guards(1) g, of "\<lambda>f original fixed. None" "''/repo''" "[]"] p
  have "process_logs demo_env ''/repo'' (Some demo_provider) demo_logs None [] (Some (\<lambda>f original fixed. None)) []
     = create_fix_branch demo_env ''/repo'' demo_analysis demo_fixed (Some demo_provider)
         (snd (generate_fix demo_env demo_solution Map.empty (Some demo_provider)
            (snd (propose_solution demo_env demo_analysis (Some demo_context) []
               (snd (locate_error demo_env demo_analysis (Some demo_provider)
                       (snd (analyze_logs demo_env demo_logs []))))))) 
          @ callback_events demo_env demo_provider demo_fixed)"
    by (simp add: demo_guards(3) demo_analyze demo_locate demo_propose)
  then show ?thesis by (simp add: demo_callback_events demo_commit)
qed

text \<open>
  C5 as stated fails when the callback raises: \<^verbatim>\<open>process_logs\<close> has no handler around
  the call, so the run ends with the callback's exception and the git manager is never
  invoked.
\<close>

theorem process_logs_aborts_when_observer_raises:
  "fst (process_logs demo_env ''/repo'' (Some demo_provider) demo_logs None []
          (Some (\<lambda>f original fixed. Some (Exc OtherException ''session state is not available''))) [])
     = Inl (Exc OtherException ''session state is not available'')
   \<and> Invoked ''GitManager'' \<notin> set (snd (process_logs demo_env ''/repo'' (Some demo_provider) demo_logs
          None [] (Some (\<lambda>f original fixed. Some (Exc OtherException ''session state is not available''))) []))"
proof -
  have g: "generate_fix demo_env demo_solution (case None of None \<Rightarrow> Map.empty | Some fc \<Rightarrow> fc)
             (Some demo_provider) h = (Inr demo_fixed, snd (generate_fix demo_env demo_solution Map.empty (Some demo_provider) h))" for h
    by (simp add: demo_generate)
  have n: "notify_changes demo_env (Some demo_provider)
             (Some (\<lambda>f original fixed. Some (Exc OtherException ''session state is not available''))) demo_fixed h
           = (Inl (Exc OtherException ''session state is not available''),
              h @ callback_events demo_env demo_provider demo_fixed)" for h
    by (simp add: notify_changes_def demo_fixed_def notify_change_def demo_provider_def basename_def
          after_last_def seq_def emit_def lift_def callback_events_def)
  from process_logs_after_generation[OF demo_guards(2) demo_analyze demo_shows(1) demo_locate
         demo_shows(2) demo_propose demo_shows(3) demo_guards(1) g, of "''/repo''"
         "Some (\<lambda>f original fixed. Some (Exc OtherException ''session state is not available''))" "[]"]
  show ?thesis
    by (simp add: seq_def n demo_analyze demo_locate demo_propose demo_generate demo_callback_events)
qed

subsection \<open>C1: failures of the version-control stage\<close>

text \<open>
  C1, amended. For every analysis whose \<open>error_type\<close> is a string and all fixed files,
  \<^verbatim>\<open>create_fix_branch\<close> returns a result with \<open>success = False\<close> when
  \<^verbatim>\<open>git checkout -b\<close> exits non-zero; when, after the branch was created and the files
  written, \<^verbatim>\<open>git add -A\<close> exits non-zero; when there is nothing to commit; and when
  \<^verbatim>\<open>git commit\<close> exits non-zero. When making a directory or writing a fixed file
  raises, the exception leaves the function and no result is returned (unless it is a
  \<^verbatim>\<open>CalledProcessError\<close>, the one class the handler catches). A result with
  \<open>success = True\<close> is returned only when the branch creation, every write, the staging
  and the commit succeeded and there was something to commit.
\<close>

theorem create_fix_branch_failure_results:
  assumes "error_type analysis = JStr t"
  shows "(git_failed env [''git'', ''checkout'', ''-b'', branch_name_of env t] \<longrightarrow>
            fst (create_fix_branch env repo_path analysis fixed_files cp h)
              = Inr \<lparr>branch_name = branch_name_of env t, commit_message = [], files_changed = [],
                     success = False\<rparr>)
       \<and> (git_ok env [''git'', ''checkout'', ''-b'', branch_name_of env t]
            \<and> writes_ok env repo_path cp fixed_files
            \<and> git_failed env [''git'', ''add'', ''-A''] \<longrightarrow>
            fst (create_fix_branch env repo_path analysis fixed_files cp h)
              = Inr \<lparr>branch_name = branch_name_of env t, commit_message = [], files_changed = [],
                     success = False\<rparr>)
       \<and> (git_ok env [''git'', ''checkout'', ''-b'', branch_name_of env t]
            \<and> writes_ok env repo_path cp fixed_files
            \<and> git_ok env [''git'', ''add'', ''-A''] \<and> status_blank env
            \<and> git_ran env [''git'', ''checkout'', ''-'']
            \<and> git_ran env [''git'', ''branch'', ''-D'', branch_name_of env t] \<longrightarrow>
            fst (create_fix_branch env repo_path analysis fixed_files cp h)
              = Inr \<lparr>branch_name = [], commit_message = ''No changes to commit'', files_changed = [],
                     success = False\<rparr>)
       \<and> (git_ok env [''git'', ''checkout'', ''-b'', branch_name_of env t]
            \<and> writes_ok env repo_path cp fixed_files
            \<and> git_ok env [''git'', ''add'', ''-A''] \<and> status_changed env
            \<and> git_failed env [''git'', ''commit'', ''-m'', commit_message_of env analysis] \<longrightarrow>
            fst (create_fix_branch env repo_path analysis fixed_files cp h)
              = Inr \<lparr>branch_name = branch_name_of env t, commit_message = [], files_changed = [],
                     success = False\<rparr>)
       \<and> (git_ok env [''git'', ''checkout'', ''-b'', branch_name_of env t]
            \<and> \<not> writes_ok env repo_path cp fixed_files \<longrightarrow>
            (\<exists>e. (\<exists>item\<in>set fixed_files. write_raises env repo_path cp item = Some e)
               \<and> fst (create_fix_branch env repo_path analysis fixed_files cp h)
                   = (if exc_class_of e = CalledProcessError
                      then Inr \<lparr>branch_name = branch_name_of env t, commit_message = [],
                                files_changed = [], success = False\<rparr>
                      else Inl e)))
       \<and> (\<forall>r. fst (create_fix_branch env repo_path analysis fixed_files cp h) = Inr r \<and> success r \<longrightarrow>
              git_ok env [''git'', ''checkout'', ''-b'', branch_name_of env t]
            \<and> writes_ok env repo_path cp fixed_files
            \<and> git_ok env [''git'', ''add'', ''-A''] \<and> status_changed env
            \<and> git_ok env [''git'', ''commit'', ''-m'', commit_message_of env analysis])"
proof (intro conjI impI allI)
  fix r
  assume "fst (create_fix_branch env repo_path analysis fixed_files cp h) = Inr r \<and> success r"
  then obtain h' where "create_fix_branch env repo_path analysis fixed_files cp h = (Inr r, h')" "success r"
    by (cases "create_fix_branch env repo_path analysis fixed_files cp h") auto
  from success_needs_every_step[OF this] assms
  have s: "git_ok env [''git'', ''checkout'', ''-b'', branch_name_of env t]
            \<and> writes_ok env repo_path cp fixed_files
            \<and> git_ok env [''git'', ''add'', ''-A''] \<and> status_changed env
            \<and> git_ok env [''git'', ''commit'', ''-m'', commit_message_of env analysis]" by auto
  from s show "git_ok env [''git'', ''checkout'', ''-b'', branch_name_of env t]" by blast
  from s show "writes_ok env repo_path cp fixed_files" by blast
  from s show "git_ok env [''git'', ''add'', ''-A'']" by blast
  from s show "status_changed env" by blast
  from s show "git_ok env [''git'', ''commit'', ''-m'', commit_message_of env analysis]" by blast
next
  assume "git_failed env [''git'', ''checkout'', ''-b'', branch_name_of env t]"
  from branch_not_created[OF assms this]
  show "fst (create_fix_branch env repo_path analysis fixed_files cp h)
              = Inr \<lparr>branch_name = branch_name_of env t, commit_message = [], files_changed = [],
                     success = False\<rparr>"
    by (simp add: failed_on_def)
next
  assume "git_ok env [''git'', ''checkout'', ''-b'', branch_name_of env t]
            \<and> writes_ok env repo_path cp fixed_files
            \<and> git_failed env [''git'', ''add'', ''-A'']"
  then show "fst (create_fix_branch env repo_path analysis fixed_files cp h)
              = Inr \<lparr>branch_name = branch_name_of env t, commit_message = [], files_changed = [],
                     success = False\<rparr>"
    using staging_failed[OF assms, of env repo_path cp fixed_files h] by (simp add: failed_on_def)
next
  assume "git_ok env [''git'', ''checkout'', ''-b'', branch_name_of env t]
            \<and> writes_ok env repo_path cp fixed_files
            \<and> git_ok env [''git'', ''add'', ''-A''] \<and> status_blank env
            \<and> git_ran env [''git'', ''checkout'', ''-'']
            \<and> git_ran env [''git'', ''branch'', ''-D'', branch_name_of env t]"
  then show "fst (create_fix_branch env repo_path analysis fixed_files cp h)
              = Inr \<lparr>branch_name = [], commit_message = ''No changes to commit'', files_changed = [],
                     success = False\<rparr>"
    using nothing_to_commit[OF assms, of env repo_path cp fixed_files h] by simp
next
  assume "git_ok env [''git'', ''checkout'', ''-b'', branch_name_of env t]
            \<and> writes_ok env repo_path cp fixed_files
            \<and> git_ok env [''git'', ''add'', ''-A''] \<and> status_changed env
            \<and> git_failed env [''git'', ''commit'', ''-m'', commit_message_of env analysis]"
  then show "fst (create_fix_branch env repo_path analysis fixed_files cp h)
              = Inr \<lparr>branch_name = branch_name_of env t, commit_message = [], files_changed = [],
                     success = False\<rparr>"
    using commit_failed[OF assms, of env repo_path cp fixed_files h] by (simp add: failed_on_def)
next
  assume "git_ok env [''git'', ''checkout'', ''-b'', branch_name_of env t]
            \<and> \<not> writes_ok env repo_path cp fixed_files"
  then show "\<exists>e. (\<exists>item\<in>set fixed_files. write_raises env repo_path cp item = Some e)
               \<and> fst (create_fix_branch env repo_path analysis fixed_files cp h)
                   = (if exc_class_of e = CalledProcessError
                      then Inr \<lparr>branch_name = branch_name_of env t, commit_message = [],
                                files_changed = [], success = False\<rparr>
                      else Inl e)"
    using write_failed[OF assms, of env repo_path cp fixed_files h] unfolding failed_on_def by blast
qed

theorem create_fix_branch_failure_results_witness:
  "fst (create_fix_branch (demo_env\<lparr>git := no_identity_git\<rparr>) ''/repo'' demo_analysis demo_fixed
          (Some demo_provider) [])
     = Inr \<lparr>branch_name = ''fix/null-pointer-20240101-000000'', commit_message = [],
            files_changed = [], success = False\<rparr>"
proof -
  let ?env = "demo_env\<lparr>git := no_identity_git\<rparr>"
  have c: "git_ok ?env [''git'', ''checkout'', ''-b'', branch_name_of ?env ''Null Pointer'']"
    by (simp add: git_ok_def no_identity_git_def demo_git_def)
  have w: "writes_ok ?env ''/repo'' (Some demo_provider) demo_fixed"
    by (simp add: writes_ok_def write_raises_def demo_fixed_def demo_env_fields)
  have a: "git_ok ?env [''git'', ''add'', ''-A'']"
    by (simp add: git_ok_def no_identity_git_def demo_git_def)
  have s: "status_changed ?env"
    by (simp add: status_changed_def no_identity_git_def demo_git_def strip_def is_space_def)
  have f: "git_failed ?env [''git'', ''commit'', ''-m'', commit_message_of ?env demo_analysis]"
    by (simp add: git_failed_def no_identity_git_def)
  have all: "git_ok ?env [''git'', ''checkout'', ''-b'', branch_name_of ?env ''Null Pointer'']
            \<and> writes_ok ?env ''/repo'' (Some demo_provider) demo_fixed
            \<and> git_ok ?env [''git'', ''add'', ''-A''] \<and> status_changed ?env
            \<and> git_failed ?env [''git'', ''commit'', ''-m'', commit_message_of ?env demo_analysis]"
    using c w a s f by blast
  from create_fix_branch_failure_results[OF demo_names(1), where env = ?env and repo_path = "''/repo''"
        and cp = "Some demo_provider" and fixed_files = demo_fixed and h = "[]"] all
  have "fst (create_fix_branch ?env ''/repo'' demo_analysis demo_fixed (Some demo_provider) [])
          = Inr \<lparr>branch_name = branch_name_of ?env ''Null Pointer'', commit_message = [],
                 files_changed = [], success = False\<rparr>"
    by blast
  then show ?thesis by (simp only: demo_names)
qed

text \<open>
  C1 as stated fails when a write fails. After \<^verbatim>\<open>git checkout -b\<close> succeeded, the write of
  \<^verbatim>\<open>/repo/src/UserController.java\<close> is refused with an \<^verbatim>\<open>OSError\<close> (permission denied).
  The handler catches \<^verbatim>\<open>CalledProcessError\<close> only: the exception leaves
  \<^verbatim>\<open>create_fix_branch\<close> and no result with \<open>success = False\<close> is returned.
\<close>

theorem create_fix_branch_write_failure_raises:
  "create_fix_branch (demo_env\<lparr>write_text := read_only_write\<rparr>) ''/repo'' demo_analysis demo_fixed
          (Some demo_provider) []
     = (Inl (Exc OSError ''[Errno 13] Permission denied''),
        [Invoked ''GitManager'', Git [''git'', ''checkout'', ''-b'', ''fix/null-pointer-20240101-000000''],
         MakeDirs ''/repo/src'', WriteFile ''/repo/src/UserController.java'' ''class UserController { }''])"
  by (simp add: create_fix_branch_def demo_names seq_def emit_def except_called_process_error_def
        run_git_checked_simps demo_env_fields demo_git_def ret_def demo_fixed_def write_fixed_file_def
        demo_targets lift_def read_only_write_def Let_def)

subsection \<open>C10: the branch after a failed step\<close>

text \<open>
  C10, amended. When, after the fix branch was created and the files written,
  \<^verbatim>\<open>git add -A\<close> or \<^verbatim>\<open>git commit\<close> exits non-zero, \<^verbatim>\<open>create_fix_branch\<close> returns the
  result with \<open>success = False\<close>, the name of the new branch (which is not empty), an
  empty commit message and no changed file. The commands of the run are the branch
  creation, the writes, the staging and, when it was reached, the status query and the
  commit: the branch is neither left (\<^verbatim>\<open>git checkout -\<close>) nor deleted
  (\<^verbatim>\<open>git branch -D\<close>).
\<close>

theorem create_fix_branch_keeps_branch:
  assumes "error_type analysis = JStr t"
    and "git_ok env [''git'', ''checkout'', ''-b'', branch_name_of env t]"
    and "writes_ok env repo_path cp fixed_files"
    and "git_failed env [''git'', ''add'', ''-A'']
         \<or> (git_ok env [''git'', ''add'', ''-A''] \<and> status_changed env
             \<and> git_failed env [''git'', ''commit'', ''-m'', commit_message_of env analysis])"
  shows "fst (create_fix_branch env repo_path analysis fixed_files cp h)
           = Inr \<lparr>branch_name = branch_name_of env t, commit_message = [], files_changed = [],
                  success = False\<rparr>
       \<and> branch_name_of env t \<noteq> []
       \<and> snd (create_fix_branch env repo_path analysis fixed_files cp h)
           = h @ [Invoked ''GitManager'', Git [''git'', ''checkout'', ''-b'', branch_name_of env t]]
               @ write_events repo_path cp fixed_files
               @ (if git_failed env [''git'', ''add'', ''-A''] then [Git [''git'', ''add'', ''-A'']]
                  else [Git [''git'', ''add'', ''-A''], Git [''git'', ''status'', ''--porcelain''],
                        Git [''git'', ''commit'', ''-m'', commit_message_of env analysis]])
       \<and> Git [''git'', ''checkout'', ''-''] \<notin> set (drop (length h)
              (snd (create_fix_branch env repo_path analysis fixed_files cp h)))
       \<and> Git [''git'', ''branch'', ''-D'', branch_name_of env t] \<notin> set (drop (length h)
              (snd (create_fix_branch env repo_path analysis fixed_files cp h)))"
proof -
  have w: "Git c \<notin> set (write_events repo_path cp fixed_files)" for c
    by (auto simp: write_events_def)
  show ?thesis
  proof (cases "git_failed env [''git'', ''add'', ''-A'']")
    case True
    from staging_failed[OF assms(1,2,3) True, of h] True w
    show ?thesis by (simp add: failed_on_def branch_name_not_empty)
  next
    case False
    with assms(4) have a: "git_ok env [''git'', ''add'', ''-A'']" and s: "status_changed env"
      and f: "git_failed env [''git'', ''commit'', ''-m'', commit_message_of env analysis]" by auto
    from commit_failed[OF assms(1,2,3) a s f, of h] False w
    show ?thesis by (simp add: failed_on_def branch_name_not_empty)
  qed
qed

theorem create_fix_branch_keeps_branch_witness:
  "create_fix_branch (demo_env\<lparr>git := no_identity_git\<rparr>) ''/repo'' demo_analysis demo_fixed
          (Some demo_provider) []
     = (Inr \<lparr>branch_name = ''fix/null-pointer-20240101-000000'', commit_message = [],
              files_changed = [], success = False\<rparr>,
        [Invoked ''GitManager'', Git [''git'', ''checkout'', ''-b'', ''fix/null-pointer-20240101-000000''],
         MakeDirs ''/repo/src'', WriteFile ''/repo/src/UserController.java'' ''class UserController { }'',
         Git [''git'', ''add'', ''-A''], Git [''git'', ''status'', ''--porcelain''],
         Git [''git'', ''commit'', ''-m'',
              commit_message_of (demo_env\<lparr>git := no_identity_git\<rparr>) demo_analysis]])"
proof -
  let ?env = "demo_env\<lparr>git := no_identity_git\<rparr>"
  have c: "git_ok ?env [''git'', ''checkout'', ''-b'', branch_name_of ?env ''Null Pointer'']"
    by (simp add: git_ok_def no_identity_git_def demo_git_def)
  have w: "writes_ok ?env ''/repo'' (Some demo_provider) demo_fixed"
    by (simp add: writes_ok_def write_raises_def demo_fixed_def demo_env_fields)
  have a: "git_ok ?env [''git'', ''add'', ''-A'']"
    by (simp add: git_ok_def no_identity_git_def demo_git_def)
  have na: "\<not> git_failed ?env [''git'', ''add'', ''-A'']"
    by (simp add: git_failed_def no_identity_git_def demo_git_def)
  have s: "status_changed ?env"
    by (simp add: status_changed_def no_identity_git_def demo_git_def strip_def is_space_def)
  have f: "git_failed ?env [''git'', ''commit'', ''-m'', commit_message_of ?env demo_analysis]"
    by (simp add: git_failed_def no_identity_git_def)
  have d: "git_failed ?env [''git'', ''add'', ''-A'']
         \<or> (git_ok ?env [''git'', ''add'', ''-A''] \<and> status_changed ?env
             \<and> git_failed ?env [''git'', ''commit'', ''-m'', commit_message_of ?env demo_analysis])"
    using a s f by blast
  have e: "write_events ''/repo'' (Some demo_provider) demo_fixed
           = [MakeDirs ''/repo/src'', WriteFile ''/repo/src/UserController.java'' ''class UserController { }'']"
    by (simp add: write_events_def demo_fixed_def demo_targets)
  from create_fix_branch_keeps_branch[OF demo_names(1) c w d, of "[]"]
  have "fst (create_fix_branch ?env ''/repo'' demo_analysis demo_fixed (Some demo_provider) [])
           = Inr \<lparr>branch_name = branch_name_of ?env ''Null Pointer'', commit_message = [], files_changed = [],
                  success = False\<rparr>"
    and "snd (create_fix_branch ?env ''/repo'' demo_analysis demo_fixed (Some demo_provider) [])
           = [] @ [Invoked ''GitManager'', Git [''git'', ''checkout'', ''-b'', branch_name_of ?env ''Null Pointer'']]
               @ write_events ''/repo'' (Some demo_provider) demo_fixed
               @ (if git_failed ?env [''git'', ''add'', ''-A''] then [Git [''git'', ''add'', ''-A'']]
                  else [Git [''git'', ''add'', ''-A''], Git [''git'', ''status'', ''--porcelain''],
                        Git [''git'', ''commit'', ''-m'', commit_message_of ?env demo_analysis]])"
    by blast+
  then show ?thesis
    by (simp only: demo_names e na if_False append_Nil append_Cons prod_eq_iff fst_conv snd_conv simp_thms)
qed

text \<open>
  C10 as stated fails for the status step: \<^verbatim>\<open>git status --porcelain\<close> runs without
  \<^verbatim>\<open>check=True\<close>, so when it fails and prints nothing the run takes the path of an
  unchanged tree, leaves and deletes the new branch, and returns an empty branch name.
\<close>

theorem create_fix_branch_deletes_branch_when_status_fails:
  "create_fix_branch (demo_env\<lparr>git := broken_status_git\<rparr>) ''/repo'' demo_analysis demo_fixed
          (Some demo_provider) []
     = (Inr \<lparr>branch_name = [], commit_message = ''No changes to commit'', files_changed = [],
              success = False\<rparr>,
        [Invoked ''GitManager'', Git [''git'', ''checkout'', ''-b'', ''fix/null-pointer-20240101-000000''],
         MakeDirs ''/repo/src'', WriteFile ''/repo/src/UserController.java'' ''class UserController { }'',
         Git [''git'', ''add'', ''-A''], Git [''git'', ''status'', ''--porcelain''],
         Git [''git'', ''checkout'', ''-''],
         Git [''git'', ''branch'', ''-D'', ''fix/null-pointer-20240101-000000'']])"
proof -
  let ?env = "demo_env\<lparr>git := broken_status_git\<rparr>"
  have c: "git_ok ?env [''git'', ''checkout'', ''-b'', branch_name_of ?env ''Null Pointer'']"
    by (simp add: git_ok_def broken_status_git_def)
  have w: "writes_ok ?env ''/repo'' (Some demo_provider) demo_fixed"
    by (simp add: writes_ok_def write_raises_def demo_fixed_def demo_env_fields)
  have a: "git_ok ?env [''git'', ''add'', ''-A'']"
    by (simp add: git_ok_def broken_status_git_def)
  have s: "status_blank ?env"
    by (simp add: status_blank_def broken_status_git_def strip_def)
  have r1: "git_ran ?env [''git'', ''checkout'', ''-'']"
    by (simp add: git_ran_def broken_status_git_def)
  have r2: "git_ran ?env [''git'', ''branch'', ''-D'', branch_name_of ?env ''Null Pointer'']"
    by (simp add: git_ran_def broken_status_git_def)
  have e: "write_events ''/repo'' (Some demo_provider) demo_fixed
           = [MakeDirs ''/repo/src'', WriteFile ''/repo/src/UserController.java'' ''class UserController { }'']"
    by (simp add: write_events_def demo_fixed_def demo_targets)
  from nothing_to_commit[OF demo_names(1) c w a s r1 r2, of "[]"]
  show ?thesis
    by (simp only: demo_names e append_Nil append_Cons)
qed

end
